theory Spec2Isabelle
  imports Complex_Main "HOL-Library.Log_Nat"
begin

section \<open>Errors (errors.go)\<close>

text \<open>
  A Go \<^verbatim>\<open>error\<close> value is an \<open>error option\<close>, \<open>None\<close> being \<^verbatim>\<open>nil\<close>.
  \<open>Canceled\<close> and \<open>DeadlineExceeded\<close> are the two values \<^verbatim>\<open>ctx.Err()\<close> can
  return; \<open>NetError\<close> stands for an error produced by net/http or by the websocket
  library; \<open>WebSocketError\<close> is the struct of errors.go, whose \<^verbatim>\<open>Err\<close> field may
  be nil.
\<close>

datatype error =
    Canceled
  | DeadlineExceeded
  | NetError string
  | WebSocketError string "error option"

definition NewWebSocketError :: "string \<Rightarrow> error option \<Rightarrow> error" where
  "NewWebSocketError reason err = WebSocketError reason err"

fun Unwrap :: "error \<Rightarrow> error option" where
  "Unwrap (WebSocketError reason err) = err"
| "Unwrap _ = None"

section \<open>Retry classifier and retry executor (retry.go)\<close>

text \<open>
  \<^verbatim>\<open>*http.Response\<close> is a \<open>response option\<close>. Of the response only the status
  code and the body's open/closed state matter to the retry logic; \<open>Body = None\<close>
  is a nil \<^verbatim>\<open>resp.Body\<close>.
\<close>

datatype body = BodyOpen | BodyClosed

record response =
  StatusCode :: int
  Body :: "body option"

text \<open>
  \<^verbatim>\<open>time.Duration\<close> is an int64 count of nanoseconds and \<^verbatim>\<open>int\<close> a machine
  integer. Both are written as \<open>int\<close>; the values of a configuration are taken to
  lie in the int64 range, and the one operation of the code that can leave that
  range, the scaling of a delay, is modelled with what it does there.
\<close>

type_synonym duration = int

text \<open>
  The multiplier is a float64. A float64 is a finite binary fraction
  \<open>Finite m e\<close>, of value \<open>m * 2 ^ e\<close>, or an infinity (\<open>Infinity True\<close> is the
  positive one), or a NaN. The sign of a zero is not kept: it has no bearing on
  the integer that a product is converted to. \<open>2.0\<close> is \<open>Finite 2 0\<close>, \<open>1.5\<close> is
  \<open>Finite 3 (- 1)\<close>. A multiplier \<open>Finite m e\<close> of a configuration is taken to
  be a float64, that is, \<open>fround m e\<close> has the value \<open>m * 2 ^ e\<close>.
\<close>

datatype float64 = Finite int int | Infinity bool | NaN

text \<open>
  Rounding to the nearest float64, ties to even: the fraction \<open>m * 2 ^ e\<close> keeps
  at most 53 significant bits, and no bit below \<open>2 ^ (- 1074)\<close>; what exceeds the
  largest finite float64 becomes an infinity.
\<close>

definition round_half_even :: "int \<Rightarrow> int \<Rightarrow> int" where
  "round_half_even n d =
     (let f = n div d; r = n mod d
      in if 2 * r < d then f else if 2 * r > d then f + 1 else if even f then f else f + 1)"

definition fround :: "int \<Rightarrow> int \<Rightarrow> float64" where
  "fround m e =
     (if m = 0 then Finite 0 0
      else
        (let k = max (bitlen \<bar>m\<bar> - 53) (- 1074 - e);
             m' = (if k \<le> 0 then m else round_half_even m (2 ^ nat k));
             e' = (if k \<le> 0 then e else e + k)
         in if bitlen \<bar>m'\<bar> + e' > 1024 then Infinity (m > 0) else Finite m' e'))"

text \<open>The float64 product \<^verbatim>\<open>x * y\<close>: the exact product, rounded.\<close>

fun fmul :: "float64 \<Rightarrow> float64 \<Rightarrow> float64" where
  "fmul (Finite m1 e1) (Finite m2 e2) = fround (m1 * m2) (e1 + e2)"
| "fmul (Finite m e) (Infinity s) = (if m = 0 then NaN else Infinity ((m > 0) = s))"
| "fmul (Infinity s) (Finite m e) = (if m = 0 then NaN else Infinity ((m > 0) = s))"
| "fmul (Infinity s) (Infinity t) = Infinity (s = t)"
| "fmul _ _ = NaN"

text \<open>The conversion \<^verbatim>\<open>float64(i)\<close> of an int64.\<close>

definition float64_of_int :: "int \<Rightarrow> float64" where
  "float64_of_int i = fround i 0"

text \<open>
  The conversion of a float64 to int64, as in \<^verbatim>\<open>time.Duration(x)\<close>: the fraction is
  discarded (truncation toward zero). When the truncated value is not an int64,
  or \<open>x\<close> is an infinity or a NaN, Go leaves the result to the implementation:
  it is some int64, here \<open>oor x\<close> brought into the int64 range. \<open>amd64\<close> is
  what the gc compiler's code for amd64 yields, the smallest int64 whatever
  \<open>x\<close> is.
\<close>

type_synonym conversion = "float64 \<Rightarrow> int"

definition trunc_fraction :: "int \<Rightarrow> int \<Rightarrow> int" where
  "trunc_fraction m e =
     (if e \<ge> 0 then m * 2 ^ nat e
      else if m \<ge> 0 then m div 2 ^ nat (- e) else - ((- m) div 2 ^ nat (- e)))"

definition wrap64 :: "int \<Rightarrow> int" where
  "wrap64 i = (i + 2 ^ 63) mod 2 ^ 64 - 2 ^ 63"

definition int64_of_float64 :: "conversion \<Rightarrow> float64 \<Rightarrow> int" where
  "int64_of_float64 oor x =
     (case x of
        Finite m e \<Rightarrow>
          (let t = trunc_fraction m e
           in if - (2 ^ 63) \<le> t \<and> t < 2 ^ 63 then t else wrap64 (oor x))
      | _ \<Rightarrow> wrap64 (oor x))"

definition amd64 :: conversion where
  "amd64 x = - (2 ^ 63)"

record RetryConfig =
  MaxRetries :: int
  InitialDelay :: duration
  MaxDelay :: duration
  Multiplier :: float64

definition millisecond :: duration where
  "millisecond = 1000000"

definition second :: duration where
  "second = 1000000000"

definition DefaultRetryConfig :: RetryConfig where
  "DefaultRetryConfig =
     \<lparr>MaxRetries = 3, InitialDelay = 100 * millisecond, MaxDelay = 5 * second, Multiplier = Finite 2 0\<rparr>"

text \<open>
  \<^verbatim>\<open>shouldRetry(resp, err)\<close>, with the source's order of tests.
\<close>

definition shouldRetry :: "response option \<Rightarrow> error option \<Rightarrow> bool" where
  "shouldRetry resp err =
     (if err \<noteq> None then True
      else case resp of
        None \<Rightarrow> True
      | Some r \<Rightarrow>
          if StatusCode r \<ge> 500 then True
          else if StatusCode r = 429 then True
          else if StatusCode r \<ge> 400 \<and> StatusCode r < 500 then False
          else False)"

text \<open>
  Line 144, \<^verbatim>\<open>time.Duration(float64(delay) * m)\<close>: the delay is converted to
  float64, multiplied, and the product converted back.
\<close>

definition scale_duration :: "conversion \<Rightarrow> duration \<Rightarrow> float64 \<Rightarrow> duration" where
  "scale_duration oor d m = int64_of_float64 oor (fmul (float64_of_int d) m)"

text \<open>
  Lines 144 to 147 of retry.go, the same rule as lines 203 to 206 of the
  reconnect supervisor: multiply, then clamp to the maximum.
\<close>

definition next_delay :: "conversion \<Rightarrow> float64 \<Rightarrow> duration \<Rightarrow> duration \<Rightarrow> duration" where
  "next_delay oor m maxd delay =
     (let d = scale_duration oor delay m in if d > maxd then maxd else d)"

text \<open>
  The environment of one call of \<^verbatim>\<open>executeWithRetry\<close>.
  \<^item> \<open>responses i\<close> is what the \<open>i\<close>-th call (from 0) of
    \<^verbatim>\<open>buildAndExecuteRequest\<close> returns.
  \<^item> The context is observed at numbered checkpoints: checkpoint \<open>2 * i\<close> is the
    test \<^verbatim>\<open>ctx.Err() != nil\<close> at the head of loop iteration \<open>i\<close>, checkpoint
    \<open>2 * i + 1\<close> is the \<^verbatim>\<open>select\<close> of the backoff wait that follows attempt
    \<open>i\<close>. \<open>ctx_done_at = Some k\<close> says that the context is cancelled so that
    checkpoint \<open>k\<close> is the first to see it; a context once done stays done.
    At a wait the \<^verbatim>\<open>ctx.Done()\<close> case is taken when the context is done by the end
    of the wait. (When the timer and the context are ready together Go may take
    the timer case; the next loop head then returns the same error with no
    attempt made, so the two choices are not distinguished.)
  \<^item> \<open>ctx_err\<close> is the value of \<^verbatim>\<open>ctx.Err()\<close> once the context is done.
  \<^item> \<open>has_logger\<close> says whether \<^verbatim>\<open>c.logger\<close> is non-nil.
  \<^item> \<open>out_of_range\<close> is what the platform makes of a float64 that does not
    convert to an int64.
\<close>

record http_env =
  responses :: "nat \<Rightarrow> response option \<times> error option"
  ctx_done_at :: "nat option"
  ctx_err :: error
  has_logger :: bool
  out_of_range :: conversion

definition ctx_Err :: "http_env \<Rightarrow> nat \<Rightarrow> error option" where
  "ctx_Err e cp =
     (case ctx_done_at e of
        None \<Rightarrow> None
      | Some k \<Rightarrow> if k \<le> cp then Some (ctx_err e) else None)"

text \<open>
  What a call does besides returning: the number of calls of
  \<^verbatim>\<open>buildAndExecuteRequest\<close>, the delays handed to \<^verbatim>\<open>time.After\<close> in order, the
  attempts whose response body was closed, and the logger calls.
\<close>

datatype log_entry =
    LogRetrying int int duration
  | LogMaxRetriesExceeded error

record trace =
  attempts :: nat
  sleeps :: "duration list"
  closed_bodies :: "nat list"
  logs :: "log_entry list"

definition trace0 :: trace where
  "trace0 = \<lparr>attempts = 0, sleeps = [], closed_bodies = [], logs = []\<rparr>"

definition log_to :: "http_env \<Rightarrow> log_entry \<Rightarrow> trace \<Rightarrow> trace" where
  "log_to e l t = (if has_logger e then t\<lparr>logs := logs t @ [l]\<rparr> else t)"

definition is_success :: "response option \<Rightarrow> error option \<Rightarrow> bool" where
  "is_success resp err =
     (err = None \<and> (case resp of None \<Rightarrow> False
                     | Some r \<Rightarrow> StatusCode r \<ge> 200 \<and> StatusCode r < 300))"

text \<open>
  Lines 120 to 122: \<^verbatim>\<open>resp.Body.Close()\<close> when both are non-nil. \<^verbatim>\<open>lastResp\<close>
  is the same pointer as \<^verbatim>\<open>resp\<close>, so the response kept as \<^verbatim>\<open>lastResp\<close> is the
  one whose body has been closed.
\<close>

definition has_body :: "response option \<Rightarrow> bool" where
  "has_body resp = (case resp of None \<Rightarrow> False | Some r \<Rightarrow> Body r \<noteq> None)"

definition close_body :: "response option \<Rightarrow> response option" where
  "close_body resp =
     (case resp of
        None \<Rightarrow> None
      | Some r \<Rightarrow> (case Body r of None \<Rightarrow> Some r | Some b \<Rightarrow> Some (r\<lparr>Body := Some BodyClosed\<rparr>)))"

text \<open>Lines 151 to 160: the code after the loop.\<close>

definition after_loop ::
  "http_env \<Rightarrow> response option \<Rightarrow> error option \<Rightarrow> trace \<Rightarrow>
   (response option \<times> error option) \<times> trace" where
  "after_loop e lastResp lastErr t =
     (case lastErr of
        Some le \<Rightarrow> ((lastResp, Some le), log_to e (LogMaxRetriesExceeded le) t)
      | None \<Rightarrow> ((lastResp, None), t))"

text \<open>
  Lines 95 to 149: the loop, one call per iteration; \<open>attempt\<close> is the loop
  counter, \<open>delay\<close>, \<open>lastResp\<close> and \<open>lastErr\<close> the local variables.
\<close>

function retry_loop ::
  "http_env \<Rightarrow> RetryConfig \<Rightarrow> nat \<Rightarrow> duration \<Rightarrow> response option \<Rightarrow> error option \<Rightarrow> trace \<Rightarrow>
   (response option \<times> error option) \<times> trace" where
  "retry_loop e rc attempt delay lastResp lastErr t =
     (if int attempt \<le> MaxRetries rc then
        (case ctx_Err e (2 * attempt) of
           Some ce \<Rightarrow> ((None, Some ce), t)
         | None \<Rightarrow>
            (let (resp, err) = responses e attempt;
                 t1 = t\<lparr>attempts := attempts t + 1\<rparr>
             in if is_success resp err then ((resp, None), t1)
                else if \<not> shouldRetry resp err then ((resp, err), t1)
                else
                  (let t2 = (if has_body resp
                             then t1\<lparr>closed_bodies := closed_bodies t1 @ [attempt]\<rparr> else t1);
                       lastResp' = close_body resp;
                       lastErr' = err
                   in if int attempt \<ge> MaxRetries rc then after_loop e lastResp' lastErr' t2
                      else
                        (let t3 = log_to e (LogRetrying (int attempt + 1) (MaxRetries rc) delay) t2;
                             t4 = t3\<lparr>sleeps := sleeps t3 @ [delay]\<rparr>
                         in case ctx_Err e (2 * attempt + 1) of
                              Some ce \<Rightarrow> ((None, Some ce), t4)
                            | None \<Rightarrow>
                                retry_loop e rc (attempt + 1)
                                  (next_delay (out_of_range e) (Multiplier rc) (MaxDelay rc) delay)
                                  lastResp' lastErr' t4))))
      else after_loop e lastResp lastErr t)"
  by pat_completeness auto
termination
  by (relation "measure (\<lambda>(e, rc, attempt, delay, lastResp, lastErr, t).
                  nat (MaxRetries rc + 1 - int attempt))") auto

declare retry_loop.simps [simp del]

text \<open>
  \<^verbatim>\<open>executeWithRetry\<close>: the argument is \<^verbatim>\<open>config.retryConfig\<close>, \<open>None\<close> when nil.
\<close>

definition executeWithRetry ::
  "http_env \<Rightarrow> RetryConfig option \<Rightarrow> (response option \<times> error option) \<times> trace" where
  "executeWithRetry e cfg =
     (case cfg of
        None \<Rightarrow> (responses e 0, trace0\<lparr>attempts := 1\<rparr>)
      | Some rc \<Rightarrow> retry_loop e rc 0 (InitialDelay rc) None None trace0)"

definition retry_result :: "http_env \<Rightarrow> RetryConfig option \<Rightarrow> response option \<times> error option" where
  "retry_result e cfg = fst (executeWithRetry e cfg)"

definition retry_trace :: "http_env \<Rightarrow> RetryConfig option \<Rightarrow> trace" where
  "retry_trace e cfg = snd (executeWithRetry e cfg)"

text \<open>
  Two names used in the proofs: the delays of \<open>k\<close> successive waits that start
  at delay \<open>d\<close>, and the trace after the body of attempt \<open>a\<close> has been closed.
\<close>

fun backoff_delays ::
  "conversion \<Rightarrow> float64 \<Rightarrow> duration \<Rightarrow> duration \<Rightarrow> nat \<Rightarrow> duration list" where
  "backoff_delays oor m maxd d 0 = []"
| "backoff_delays oor m maxd d (Suc k) = d # backoff_delays oor m maxd (next_delay oor m maxd d) k"

definition closed_at :: "nat \<Rightarrow> response option \<Rightarrow> trace \<Rightarrow> trace" where
  "closed_at a resp t =
     (if has_body resp then t\<lparr>closed_bodies := closed_bodies t @ [a]\<rparr> else t)"

text \<open>Environments and configurations for the concrete runs below.\<close>

definition always_503 :: http_env where
  "always_503 =
     \<lparr>responses = (\<lambda>i. (Some \<lparr>StatusCode = 503, Body = Some BodyOpen\<rparr>, None)),
      ctx_done_at = None, ctx_err = Canceled, has_logger = True, out_of_range = amd64\<rparr>"

definition ok_then_503 :: http_env where
  "ok_then_503 =
     \<lparr>responses = (\<lambda>i. if i = 0 then (Some \<lparr>StatusCode = 200, Body = Some BodyOpen\<rparr>, None)
                        else (Some \<lparr>StatusCode = 503, Body = Some BodyOpen\<rparr>, None)),
      ctx_done_at = None, ctx_err = Canceled, has_logger = True, out_of_range = amd64\<rparr>"

definition cancelled_in_first_wait :: http_env where
  "cancelled_in_first_wait =
     \<lparr>responses = (\<lambda>i. (Some \<lparr>StatusCode = 503, Body = Some BodyOpen\<rparr>, None)),
      ctx_done_at = Some 1, ctx_err = Canceled, has_logger = False, out_of_range = amd64\<rparr>"

definition inverted_delays :: RetryConfig where
  "inverted_delays =
     \<lparr>MaxRetries = 2, InitialDelay = 10 * second, MaxDelay = 5 * second, Multiplier = Finite 2 0\<rparr>"

text \<open>
  A delay of \<open>2 ^ 53 + 1\<close> nanoseconds (some 104 days) with the multiplier
  \<open>1.0\<close>, and a delay of one second with the multiplier \<open>1e10\<close>.
\<close>

definition long_delays :: RetryConfig where
  "long_delays =
     \<lparr>MaxRetries = 2, InitialDelay = 9007199254740993, MaxDelay = 9007199254740993,
      Multiplier = Finite 1 0\<rparr>"

definition steep_backoff :: RetryConfig where
  "steep_backoff =
     \<lparr>MaxRetries = 2, InitialDelay = 1 * second, MaxDelay = 2 * second,
      Multiplier = Finite 10000000000 0\<rparr>"

section \<open>Duplex stream session and reconnect supervisor\<close>

text \<open>
  The source file of \<^verbatim>\<open>WebSocketStream\<close> and \<^verbatim>\<open>WebSocketStreamWithReconnect\<close>.
  A message is the JSON text of one frame.
\<close>

type_synonym message = string

record WebSocketResponse =
  Data :: "message option"
  RawData :: string
  Error :: "error option"
  Closed :: bool

record WebSocketConfig =
  AutoReconnect :: bool
  MaxReconnectAttempts :: int
  ReconnectDelay :: duration
  MaxReconnectDelay :: duration
  ReconnectMultiplier :: float64
  OnReconnect :: bool

text \<open>
  \<open>OnReconnect\<close> says whether a callback is given; the calls are counted in the
  state below.
\<close>

definition DefaultWebSocketConfig :: WebSocketConfig where
  "DefaultWebSocketConfig =
     \<lparr>AutoReconnect = True, MaxReconnectAttempts = 10, ReconnectDelay = 1 * second,
      MaxReconnectDelay = 30 * second, ReconnectMultiplier = Finite 2 0, OnReconnect = False\<rparr>"

text \<open>
  A run is driven by a script of events, in the order in which they happen.
  Two kinds of event happen beside the calling goroutine:
  \<^item> \<open>Cancel err\<close>: the context becomes done, \<^verbatim>\<open>ctx.Err()\<close> is \<open>err\<close> from then on;
  \<^item> \<open>Read i r\<close>: in the reader goroutine of connection \<open>i\<close> (lines 114 to 131)
    the pending \<^verbatim>\<open>wsjson.Read\<close> returns \<open>r\<close> and the goroutine sends the
    corresponding value on \<^verbatim>\<open>receiveChan\<close>;
  \<^item> \<open>Exit i\<close>: that goroutine, having sent the value for a failed read,
    returns, and its deferred \<^verbatim>\<open>close(receiveChan)\<close> runs.
  One event places a test of the calling goroutine among them:
  \<^item> \<open>CtxErr\<close>: the calling goroutine evaluates \<^verbatim>\<open>ctx.Err() != nil\<close> (lines 178
    and 214 of the supervisor) at this point, before what follows in the script.
    Where the script has no \<open>CtxErr\<close>, the test is made after all the events
    of the other goroutines that the script lists before the calling
    goroutine's next event.
  The others are what the calling goroutine meets where it waits:
  \<^item> \<open>Dial d\<close>: the outcome of \<^verbatim>\<open>url.Parse\<close> and \<^verbatim>\<open>websocket.Dial\<close>;
  \<^item> \<open>Recv m w\<close>: the \<^verbatim>\<open>select\<close> of the writer loop receives \<open>m\<close> from
    \<^verbatim>\<open>sendChan\<close>, and \<^verbatim>\<open>wsjson.Write\<close> returns \<open>w\<close>;
  \<^item> \<open>RecvClosed\<close>: that \<^verbatim>\<open>select\<close> finds \<^verbatim>\<open>sendChan\<close> closed;
  \<^item> \<open>CtxDone\<close>: a \<^verbatim>\<open>select\<close> takes the case \<^verbatim>\<open><-ctx.Done()\<close>;
  \<^item> \<open>TimerFired\<close>: the \<^verbatim>\<open>select\<close> of the backoff wait takes \<^verbatim>\<open><-time.After(delay)\<close>.
\<close>

datatype read_result = ReadMessage message | ReadError error

datatype dial_result = BadURL error | DialError "int option" error | Connected

datatype event =
    Cancel error
  | Read nat read_result
  | Exit nat
  | CtxErr
  | Dial dial_result
  | Recv message "error option"
  | RecvClosed
  | CtxDone
  | TimerFired

text \<open>
  The state shared by the goroutines. Connection \<open>i\<close> is the one opened by the
  \<open>i\<close>-th successful dial; it has one reader goroutine, which is reading, or
  has sent the value for a failed read and is about to return (\<open>Closing\<close>), or
  has returned. \<open>receiveChan\<close> is the history of the caller's output channel:
  the sends and closes performed on it, in order, each with the connection
  whose reader performed it (the consumer is taken to receive each value, so a
  send does not block for ever). \<open>panic\<close> is set when a goroutine panics, which
  ends the program. \<open>streams\<close> counts the calls of \<^verbatim>\<open>WebSocketStream\<close>,
  \<open>onReconnect_calls\<close> the calls of the callback, \<open>backoffs\<close> lists the delays
  handed to \<^verbatim>\<open>time.After\<close>, \<open>ws_logs\<close> the logger's messages.
  \<open>ws_out_of_range\<close> is what the platform makes of a float64 that does not
  convert to an int64; it never changes.
\<close>

datatype reader_state = Reading | Closing | Exited

record connection =
  conn_open :: bool
  reader :: reader_state

datatype chan_op = ChanSend WebSocketResponse | ChanClose

record ws_state =
  ctx_error :: "error option"
  conns :: "connection list"
  receiveChan :: "(nat \<times> chan_op) list"
  panic :: "string option"
  streams :: nat
  onReconnect_calls :: nat
  backoffs :: "duration list"
  ws_logs :: "string list"
  ws_out_of_range :: conversion

definition ws_init :: ws_state where
  "ws_init =
     \<lparr>ctx_error = None, conns = [], receiveChan = [], panic = None, streams = 0,
      onReconnect_calls = 0, backoffs = [], ws_logs = [], ws_out_of_range = amd64\<rparr>"

definition cancel :: "error \<Rightarrow> ws_state \<Rightarrow> ws_state" where
  "cancel err s = (if ctx_error s = None then s\<lparr>ctx_error := Some err\<rparr> else s)"

text \<open>
  Go's channel operations on \<^verbatim>\<open>receiveChan\<close>: a send on a closed channel and the
  close of a closed channel panic.
\<close>

definition chan_closed :: "ws_state \<Rightarrow> bool" where
  "chan_closed s = (ChanClose \<in> snd ` set (receiveChan s))"

definition chan_send :: "nat \<Rightarrow> WebSocketResponse \<Rightarrow> ws_state \<Rightarrow> ws_state" where
  "chan_send i ev s =
     (if chan_closed s then s\<lparr>panic := Some ''send on closed channel''\<rparr>
      else s\<lparr>receiveChan := receiveChan s @ [(i, ChanSend ev)]\<rparr>)"

definition chan_close :: "nat \<Rightarrow> ws_state \<Rightarrow> ws_state" where
  "chan_close i s =
     (if chan_closed s then s\<lparr>panic := Some ''close of closed channel''\<rparr>
      else s\<lparr>receiveChan := receiveChan s @ [(i, ChanClose)]\<rparr>)"

definition set_reader :: "nat \<Rightarrow> reader_state \<Rightarrow> ws_state \<Rightarrow> ws_state" where
  "set_reader i st s = s\<lparr>conns := (conns s)[i := (conns s ! i)\<lparr>reader := st\<rparr>]\<rparr>"

definition close_conn :: "nat \<Rightarrow> ws_state \<Rightarrow> ws_state" where
  "close_conn i s = s\<lparr>conns := (conns s)[i := (conns s ! i)\<lparr>conn_open := False\<rparr>]\<rparr>"

text \<open>
  \<open>Read i r\<close> can happen when connection \<open>i\<close> exists and its reader is reading;
  a message can only be read from a connection that is open (on a closed
  connection \<^verbatim>\<open>wsjson.Read\<close> returns an error). \<open>Exit i\<close> can happen when the
  reader of connection \<open>i\<close> is about to return.
\<close>

definition read_enabled :: "nat \<Rightarrow> read_result \<Rightarrow> ws_state \<Rightarrow> bool" where
  "read_enabled i r s =
     (i < length (conns s) \<and> reader (conns s ! i) = Reading \<and>
      (case r of ReadError err \<Rightarrow> True | ReadMessage m \<Rightarrow> conn_open (conns s ! i)))"

definition exit_enabled :: "nat \<Rightarrow> ws_state \<Rightarrow> bool" where
  "exit_enabled i s = (i < length (conns s) \<and> reader (conns s ! i) = Closing)"

text \<open>
  Lines 116 to 130, one turn of the reader's loop: on an error the reader sends
  the value with \<^verbatim>\<open>Error\<close> and \<^verbatim>\<open>Closed\<close> set and leaves the loop, otherwise it
  sends the message. Line 115, the deferred \<^verbatim>\<open>close(receiveChan)\<close>, runs when the
  reader returns.
\<close>

definition error_event :: "error \<Rightarrow> WebSocketResponse" where
  "error_event err = \<lparr>Data = None, RawData = [], Error = Some err, Closed = True\<rparr>"

definition message_event :: "message \<Rightarrow> WebSocketResponse" where
  "message_event m = \<lparr>Data = Some m, RawData = [], Error = None, Closed = False\<rparr>"

definition reader_iteration :: "nat \<Rightarrow> read_result \<Rightarrow> ws_state \<Rightarrow> ws_state" where
  "reader_iteration i r s =
     (case r of
        ReadError err \<Rightarrow>
          (let s1 = chan_send i (error_event err) s
           in if panic s1 \<noteq> None then s1 else set_reader i Closing s1)
      | ReadMessage m \<Rightarrow> chan_send i (message_event m) s)"

definition reader_return :: "nat \<Rightarrow> ws_state \<Rightarrow> ws_state" where
  "reader_return i s =
     (let s1 = chan_close i s in if panic s1 \<noteq> None then s1 else set_reader i Exited s1)"

text \<open>
  What happens beside the calling goroutine until that goroutine's next event:
  the leading \<open>Cancel\<close>, \<open>Read\<close> and \<open>Exit\<close> events of the script are applied.
  Nothing more happens once a goroutine has panicked.
\<close>

fun drain :: "event list \<Rightarrow> ws_state \<Rightarrow> event list \<times> ws_state" where
  "drain (Cancel err # evs) s =
     (if panic s \<noteq> None then (Cancel err # evs, s) else drain evs (cancel err s))"
| "drain (Read i r # evs) s =
     (if panic s = None \<and> read_enabled i r s then drain evs (reader_iteration i r s)
      else (Read i r # evs, s))"
| "drain (Exit i # evs) s =
     (if panic s = None \<and> exit_enabled i s then drain evs (reader_return i s)
      else (Exit i # evs, s))"
| "drain evs s = (evs, s)"

text \<open>
  Where the calling goroutine tests \<^verbatim>\<open>ctx.Err()\<close>, which does not wait: the
  events of the other goroutines that come first are applied, and a \<open>CtxErr\<close>
  that follows them marks the test and is used up.
\<close>

definition drain_check :: "event list \<Rightarrow> ws_state \<Rightarrow> event list \<times> ws_state" where
  "drain_check evs s =
     (case drain evs s of
        (evs', s') \<Rightarrow> (case evs' of CtxErr # rest \<Rightarrow> (rest, s') | _ \<Rightarrow> (evs', s')))"

text \<open>
  A call either returns, or the program panics, or the script gives the call no
  way on: it is exhausted (the call is still waiting) or its next event cannot
  happen in this state.
\<close>

datatype 'a outcome = Returns 'a | Panics | Stuck

definition ws_log :: "bool \<Rightarrow> string \<Rightarrow> ws_state \<Rightarrow> ws_state" where
  "ws_log lg msg s = (if lg then s\<lparr>ws_logs := ws_logs s @ [msg]\<rparr> else s)"

text \<open>
  Lines 134 to 151, the writer loop; \<open>lg\<close> says whether \<^verbatim>\<open>c.logger\<close> is non-nil.
\<close>

function writer_loop ::
  "bool \<Rightarrow> event list \<Rightarrow> ws_state \<Rightarrow> error option outcome \<times> event list \<times> ws_state" where
  "writer_loop lg evs s =
     (case drain evs s of
        (evs', s') \<Rightarrow>
          if panic s' \<noteq> None then (Panics, evs', s')
          else
            (case evs' of
               CtxDone # rest \<Rightarrow>
                 (case ctx_error s' of
                    Some err \<Rightarrow> (Returns (Some err), rest, s')
                  | None \<Rightarrow> (Stuck, evs', s'))
             | Recv msg werr # rest \<Rightarrow>
                 (case werr of
                    Some err \<Rightarrow>
                      (Returns (Some (NewWebSocketError ''failed to send message'' (Some err))),
                       rest, s')
                  | None \<Rightarrow>
                      writer_loop lg rest (ws_log lg ''message sent to WebSocket stream'' s'))
             | RecvClosed # rest \<Rightarrow> (Returns None, rest, s')
             | _ \<Rightarrow> (Stuck, evs', s')))"
  by pat_completeness auto
termination
proof (relation "measure (\<lambda>(lg, evs, s). length evs)")
  show "wf (measure (\<lambda>(lg, evs, s). length evs))" by simp
next
  fix lg :: bool and evs :: "event list" and s :: ws_state and x evs' s' ev rest msg werr
  assume d: "(evs', s') = drain evs s" and e: "evs' = ev # rest"
  have "length (fst (drain es t)) \<le> length es" for es t
    by (induction es t rule: drain.induct) (auto intro: le_SucI)
  from this[of evs s] d e have "length rest < length evs"
    by (metis fst_conv length_Cons less_eq_Suc_le)
  then show "((lg, rest, ws_log lg ''message sent to WebSocket stream'' s'), lg, evs, s)
               \<in> measure (\<lambda>(lg, evs, s). length evs)"
    by simp
qed

declare writer_loop.simps [simp del]

text \<open>The number in \<^verbatim>\<open>fmt.Sprintf("dial failed with status %d", ...)\<close>.\<close>

fun digits :: "nat \<Rightarrow> string" where
  "digits n =
     (if n < 10 then [''0123456789'' ! n]
      else digits (n div 10) @ [''0123456789'' ! (n mod 10)])"

declare digits.simps [simp del]

definition decimal :: "int \<Rightarrow> string" where
  "decimal i = (if i < 0 then CHR ''-'' # digits (nat (- i)) else digits (nat i))"

text \<open>
  \<^verbatim>\<open>WebSocketStream\<close>, lines 65 to 152. The options only matter through the
  outcome of the dial. A successful dial opens a new connection and starts its
  reader; the deferred \<^verbatim>\<open>conn.Close\<close> runs when the function returns.
\<close>

definition WebSocketStream ::
  "bool \<Rightarrow> event list \<Rightarrow> ws_state \<Rightarrow> error option outcome \<times> event list \<times> ws_state" where
  "WebSocketStream lg evs s0 =
     (case drain evs (s0\<lparr>streams := streams s0 + 1\<rparr>) of
        (evs', s') \<Rightarrow>
          if panic s' \<noteq> None then (Panics, evs', s')
          else
            (case evs' of
               Dial (BadURL err) # rest \<Rightarrow> (Returns (Some err), rest, s')
             | Dial (DialError status err) # rest \<Rightarrow>
                 (Returns (Some (NewWebSocketError
                    (case status of
                       Some code \<Rightarrow> ''dial failed with status '' @ decimal code
                     | None \<Rightarrow> ''dial failed'') (Some err))),
                  rest, ws_log lg ''opening WebSocket stream'' s')
             | Dial Connected # rest \<Rightarrow>
                 (let s1 = ws_log lg ''opening WebSocket stream'' s';
                      c = length (conns s1);
                      s2 = s1\<lparr>conns := conns s1 @ [\<lparr>conn_open = True, reader = Reading\<rparr>]\<rparr>
                  in case writer_loop lg rest s2 of
                       (Returns r, rest', s3) \<Rightarrow> (Returns r, rest', close_conn c s3)
                     | (out, rest', s3) \<Rightarrow> (out, rest', s3))
             | _ \<Rightarrow> (Stuck, evs', s')))"

text \<open>
  Lines 183 to 208: the log line, the callback and the backoff wait that precede
  every session but the first. The result is the next delay, or the outcome
  with which the supervisor ends.
\<close>

definition backoff_wait ::
  "bool \<Rightarrow> WebSocketConfig \<Rightarrow> duration \<Rightarrow> event list \<Rightarrow> ws_state \<Rightarrow>
   (error option outcome + duration) \<times> event list \<times> ws_state" where
  "backoff_wait lg cfg delay evs s =
     (let s1 = ws_log lg ''attempting to reconnect WebSocket'' s;
          s2 = (if OnReconnect cfg then s1\<lparr>onReconnect_calls := onReconnect_calls s1 + 1\<rparr> else s1);
          s3 = s2\<lparr>backoffs := backoffs s2 @ [delay]\<rparr>
      in case drain evs s3 of
           (evs', s') \<Rightarrow>
             if panic s' \<noteq> None then (Inl Panics, evs', s')
             else
               (case evs' of
                  CtxDone # rest \<Rightarrow>
                    (case ctx_error s' of
                       Some err \<Rightarrow> (Inl (Returns (Some err)), rest, s')
                     | None \<Rightarrow> (Inl Stuck, evs', s'))
                | TimerFired # rest \<Rightarrow>
                    (Inr (next_delay (ws_out_of_range s) (ReconnectMultiplier cfg)
                            (MaxReconnectDelay cfg) delay),
                     rest, s')
                | _ \<Rightarrow> (Inl Stuck, evs', s')))"

text \<open>
  Lines 213 to 233: what the supervisor does when the session has returned
  \<open>err\<close>, from the test of \<^verbatim>\<open>ctx.Err()\<close> on. The result is the incremented
  attempt counter, or the outcome with which the supervisor ends.
\<close>

definition after_session ::
  "bool \<Rightarrow> WebSocketConfig \<Rightarrow> nat \<Rightarrow> error option \<Rightarrow> event list \<Rightarrow> ws_state \<Rightarrow>
   (error option outcome + nat) \<times> event list \<times> ws_state" where
  "after_session lg cfg attempt err evs s =
     (case drain_check evs s of
        (evs', s') \<Rightarrow>
          if panic s' \<noteq> None then (Inl Panics, evs', s')
          else
            (case ctx_error s' of
               Some cerr \<Rightarrow> (Inl (Returns (Some cerr)), evs', s')
             | None \<Rightarrow>
                 (let attempt' = attempt + 1
                  in if MaxReconnectAttempts cfg > 0 \<and> int attempt' \<ge> MaxReconnectAttempts cfg
                     then (Inl (Returns (Some (NewWebSocketError
                                  ''max reconnection attempts exceeded'' err))),
                           evs', ws_log lg ''max WebSocket reconnection attempts reached'' s')
                     else (Inr attempt', evs',
                           ws_log lg ''WebSocket disconnected, will retry'' s'))))"

text \<open>
  Lines 176 to 236, one turn of the supervisor's loop, which begins with the
  test of \<^verbatim>\<open>ctx.Err()\<close>: the result is the outcome with which the supervisor
  ends, or the attempt counter and the delay of the next turn.
\<close>

definition reconnect_iteration ::
  "bool \<Rightarrow> WebSocketConfig \<Rightarrow> nat \<Rightarrow> duration \<Rightarrow> event list \<Rightarrow> ws_state \<Rightarrow>
   (error option outcome + nat \<times> duration) \<times> event list \<times> ws_state" where
  "reconnect_iteration lg cfg attempt delay evs s =
     (case drain_check evs s of
        (evs0, s0) \<Rightarrow>
          if panic s0 \<noteq> None then (Inl Panics, evs0, s0)
          else
            (case ctx_error s0 of
               Some cerr \<Rightarrow> (Inl (Returns (Some cerr)), evs0, s0)
             | None \<Rightarrow>
                 (case (if attempt > 0 then backoff_wait lg cfg delay evs0 s0
                        else (Inr delay, evs0, s0)) of
                    (Inl out, evs1, s1) \<Rightarrow> (Inl out, evs1, s1)
                  | (Inr delay', evs1, s1) \<Rightarrow>
                      (case WebSocketStream lg evs1 s1 of
                         (Returns err, evs2, s2) \<Rightarrow>
                           (case after_session lg cfg attempt err evs2 s2 of
                              (Inl out, evs3, s3) \<Rightarrow> (Inl out, evs3, s3)
                            | (Inr attempt', evs3, s3) \<Rightarrow> (Inr (attempt', delay'), evs3, s3))
                       | (out, evs2, s2) \<Rightarrow> (Inl out, evs2, s2)))))"

text \<open>
  Lines 173 to 236: the supervisor's loop, with its local variables \<open>attempt\<close>
  and \<open>delay\<close>. Every turn of the loop that goes round has used up at least
  one event of the script, the dial of its session, so the loop is defined on
  every script.
\<close>

function reconnect_loop ::
  "bool \<Rightarrow> WebSocketConfig \<Rightarrow> nat \<Rightarrow> duration \<Rightarrow> event list \<Rightarrow> ws_state \<Rightarrow>
   error option outcome \<times> event list \<times> ws_state" where
  "reconnect_loop lg cfg attempt delay evs s =
     (case reconnect_iteration lg cfg attempt delay evs s of
        (Inl out, evs', s') \<Rightarrow> (out, evs', s')
      | (Inr (attempt', delay'), evs', s') \<Rightarrow> reconnect_loop lg cfg attempt' delay' evs' s')"
  by pat_completeness auto
termination
proof -
  have drain_length: "length evs' \<le> length evs" if "drain evs s = (evs', s')"
    for evs evs' and s s' :: ws_state
  proof -
    have "length (fst (drain evs s)) \<le> length evs"
      by (induction evs s rule: drain.induct) (auto intro: le_SucI)
    then show ?thesis using that by simp
  qed
  have writer_loop_length: "length (fst (snd (writer_loop lg evs s))) \<le> length evs"
    for lg evs s
  proof (induction lg evs s rule: writer_loop.induct)
    case (1 lg evs s)
    obtain evs' s' where d: "drain evs s = (evs', s')" by (cases "drain evs s")
    note len = drain_length[OF d]
    show ?case
    proof (cases "panic s' \<noteq> None")
      case True
      then show ?thesis using d len by (subst writer_loop.simps) simp
    next
      case np: False
      show ?thesis
      proof (cases evs')
        case Nil
        then show ?thesis using d np by (subst writer_loop.simps) simp
      next
        case (Cons ev rest)
        show ?thesis
        proof (cases ev)
          case (Recv msg werr)
          show ?thesis
          proof (cases werr)
            case None
            have "length (fst (snd (writer_loop lg rest
                    (ws_log lg ''message sent to WebSocket stream'' s')))) \<le> length rest"
              using "1.IH"[OF d[symmetric] np Cons Recv None] np by simp
            then show ?thesis using d np Cons Recv None len
              by (subst writer_loop.simps) simp
          next
            case (Some err)
            then show ?thesis using d np Cons Recv len by (subst writer_loop.simps) simp
          qed
        qed (use d np Cons len in \<open>subst writer_loop.simps, simp split: option.splits\<close>)+
      qed
    qed
  qed
  have stream_length: "length evs' < length evs"
    if ret: "WebSocketStream lg evs s = (Returns r, evs', s')" for lg evs s r evs' s'
  proof -
    obtain es t where d: "drain evs (s\<lparr>streams := streams s + 1\<rparr>) = (es, t)"
      by (cases "drain evs (s\<lparr>streams := streams s + 1\<rparr>)")
    note len = drain_length[OF d]
    have np: "panic t = None"
      using ret d by (auto simp: WebSocketStream_def split: if_splits)
    show ?thesis
    proof (cases es)
      case Nil
      then show ?thesis using ret d np by (simp add: WebSocketStream_def)
    next
      case (Cons ev rest)
      show ?thesis
      proof (cases ev)
        case (Dial dr)
        show ?thesis
        proof (cases dr)
          case Connected
          let ?s1 = "ws_log lg ''opening WebSocket stream'' t"
          let ?s2 = "?s1\<lparr>conns := conns ?s1 @ [\<lparr>conn_open = True, reader = Reading\<rparr>]\<rparr>"
          obtain out rest' s3 where w: "writer_loop lg rest ?s2 = (out, rest', s3)"
            by (cases "writer_loop lg rest ?s2")
          have "length rest' \<le> length rest"
            using writer_loop_length[of lg rest ?s2] w by simp
          moreover have "evs' = rest'"
            using ret d np Cons Dial Connected w
            by (cases out) (simp_all add: WebSocketStream_def Let_def)
          ultimately show ?thesis using len Cons by simp
        qed (use ret d np Cons Dial len in \<open>auto simp: WebSocketStream_def\<close>)
      qed (use ret d np Cons in \<open>simp_all add: WebSocketStream_def\<close>)
    qed
  qed
  have check_length: "length evs' \<le> length evs" if "drain_check evs s = (evs', s')"
    for evs evs' and s s' :: ws_state
  proof -
    obtain es t where d: "drain evs s = (es, t)" by (cases "drain evs s")
    from drain_length[OF d] that d show ?thesis
      by (auto simp: drain_check_def split: list.splits event.splits)
  qed
  have wait_length: "length evs' \<le> length evs"
    if "backoff_wait lg cfg delay evs s = (x, evs', s')" for lg cfg delay evs s x evs' s'
    using that
    by (auto simp: backoff_wait_def Let_def
        split: prod.splits if_splits list.splits event.splits option.splits
        dest!: drain_length)
  have after_length: "length evs' \<le> length evs"
    if "after_session lg cfg attempt err evs s = (x, evs', s')"
    for lg cfg attempt err evs s x evs' s'
    using that
    by (auto simp: after_session_def Let_def
        split: prod.splits if_splits option.splits
        dest!: check_length)
  have iteration_length: "length evs' < length evs"
    if it: "reconnect_iteration lg cfg attempt delay evs s = (Inr x, evs', s')"
    for lg cfg attempt delay evs s x evs' s'
  proof -
    obtain evs0 s0 where d: "drain_check evs s = (evs0, s0)" by (cases "drain_check evs s")
    note len0 = check_length[OF d]
    let ?b = "if attempt > 0 then backoff_wait lg cfg delay evs0 s0 else (Inr delay, evs0, s0)"
    obtain y evs1 s1 where b: "?b = (y, evs1, s1)" by (cases ?b)
    have len1: "length evs1 \<le> length evs0"
      using b wait_length[of lg cfg delay evs0 s0 y evs1 s1] by (auto split: if_splits)
    obtain out evs2 s2 where w: "WebSocketStream lg evs1 s1 = (out, evs2, s2)"
      by (cases "WebSocketStream lg evs1 s1")
    from it d b w obtain delay' err where y: "y = Inr delay'" and out: "out = Returns err"
      by (auto simp: reconnect_iteration_def
          split: if_splits option.splits sum.splits outcome.splits)
    have len2: "length evs2 < length evs1"
      using stream_length w out by simp
    obtain z evs3 s3 where a: "after_session lg cfg attempt err evs2 s2 = (z, evs3, s3)"
      by (cases "after_session lg cfg attempt err evs2 s2")
    have len3: "length evs3 \<le> length evs2" using after_length[OF a] .
    have "evs' = evs3"
      using it d b w y out a
      by (auto simp: reconnect_iteration_def split: if_splits option.splits sum.splits)
    then show ?thesis using len0 len1 len2 len3 by simp
  qed
  show ?thesis
    by (relation "measure (\<lambda>(lg, cfg, attempt, delay, evs, s). length evs)")
      (auto dest: iteration_length[OF sym])
qed

declare reconnect_loop.simps [simp del]

text \<open>
  \<^verbatim>\<open>WebSocketStreamWithReconnect\<close>, lines 157 to 237; the argument \<open>wsConfig\<close> is
  \<^verbatim>\<open>config.wsConfig\<close>, \<open>None\<close> when nil.
\<close>

definition WebSocketStreamWithReconnect ::
  "bool \<Rightarrow> WebSocketConfig option \<Rightarrow> event list \<Rightarrow> ws_state \<Rightarrow>
   error option outcome \<times> event list \<times> ws_state" where
  "WebSocketStreamWithReconnect lg wsConfig evs s =
     (case wsConfig of
        None \<Rightarrow> WebSocketStream lg evs s
      | Some cfg \<Rightarrow>
          if \<not> AutoReconnect cfg then WebSocketStream lg evs s
          else reconnect_loop lg cfg 0 (ReconnectDelay cfg) evs s)"

text \<open>
  A whole run: the call, then whatever the script still holds for the reader
  goroutines, which outlive the call.
\<close>

definition run_stream :: "bool \<Rightarrow> event list \<Rightarrow> ws_state \<Rightarrow> error option outcome \<times> ws_state" where
  "run_stream lg evs s =
     (case WebSocketStream lg evs s of (out, rest, s') \<Rightarrow> (out, snd (drain rest s')))"

definition run_reconnect ::
  "bool \<Rightarrow> WebSocketConfig option \<Rightarrow> event list \<Rightarrow> ws_state \<Rightarrow> error option outcome \<times> ws_state" where
  "run_reconnect lg wsConfig evs s =
     (case WebSocketStreamWithReconnect lg wsConfig evs s of
        (out, rest, s') \<Rightarrow> (out, snd (drain rest s')))"

text \<open>The values sent on the output channel.\<close>

fun sent_values :: "(nat \<times> chan_op) list \<Rightarrow> WebSocketResponse list" where
  "sent_values [] = []"
| "sent_values ((i, ChanSend ev) # ops) = ev # sent_values ops"
| "sent_values ((i, ChanClose) # ops) = sent_values ops"

definition no_error_event :: "ws_state \<Rightarrow> bool" where
  "no_error_event s = list_all (\<lambda>ev. Error ev = None) (sent_values (receiveChan s))"

text \<open>Configurations and scripts for the concrete runs below.\<close>

definition five_attempts :: WebSocketConfig where
  "five_attempts =
     \<lparr>AutoReconnect = True, MaxReconnectAttempts = 5, ReconnectDelay = 1 * second,
      MaxReconnectDelay = 30 * second, ReconnectMultiplier = Finite 2 0, OnReconnect = True\<rparr>"

definition refused :: event where
  "refused = Dial (DialError None (NetError ''connection refused''))"

definition dial_always_fails :: "event list" where
  "dial_always_fails =
     [refused, TimerFired, refused, TimerFired, refused, TimerFired, refused, TimerFired,
      refused, TimerFired, refused, TimerFired, refused, TimerFired, refused, TimerFired]"

definition graceful_shutdown :: "event list" where
  "graceful_shutdown =
     [Dial Connected,
      Recv ''{\"n\":1}'' None,
      Read 0 (ReadMessage ''{\"n\":1}''),
      RecvClosed,
      Read 0 (ReadError (NetError ''use of closed network connection'')),
      Exit 0]"

definition drop_and_reconnect :: "event list" where
  "drop_and_reconnect =
     [Dial Connected,
      Read 0 (ReadError (NetError ''EOF'')),
      Exit 0,
      Recv ''{\"n\":1}'' (Some (NetError ''broken pipe'')),
      TimerFired,
      Dial Connected,
      Read 1 (ReadMessage ''{\"n\":2}'')]"

text \<open>
  A dial is refused; the supervisor makes its two tests of \<^verbatim>\<open>ctx.Err()\<close>, calls
  the callback and starts its backoff wait; then the context is cancelled.
\<close>

definition cancelled_in_backoff :: "event list" where
  "cancelled_in_backoff = [refused, CtxErr, CtxErr, Cancel Canceled, CtxDone]"

text \<open>
  The script of a dial that is refused every time, seen from a reconnection on:
  the timer of the wait fires and the dial fails, \<open>k\<close> times. A state is calm
  when nothing has panicked and the context is not done.
\<close>

fun always_refused :: "nat \<Rightarrow> event list" where
  "always_refused 0 = []"
| "always_refused (Suc k) = TimerFired # refused # always_refused k"

definition calm :: "ws_state \<Rightarrow> bool" where
  "calm s = (panic s = None \<and> ctx_error s = None)"

definition dial_failed :: error where
  "dial_failed = WebSocketError ''dial failed'' (Some (NetError ''connection refused''))"

section \<open>The retry loop, one iteration at a time\<close>

text \<open>
  Each lemma unfolds \<open>retry_loop\<close> once along one path of the loop body: the loop
  condition fails, the context is done at the loop head, the attempt succeeds,
  the outcome is not retryable, the last permitted attempt is retryable, the
  context is done during the wait, or the loop goes round.
\<close>

lemma shouldRetry_not_success: "shouldRetry resp err \<Longrightarrow> \<not> is_success resp err"
  by (auto simp: shouldRetry_def is_success_def split: option.splits if_splits)

lemma log_to_fields [simp]:
  "attempts (log_to e l t) = attempts t"
  "sleeps (log_to e l t) = sleeps t"
  "closed_bodies (log_to e l t) = closed_bodies t"
  by (simp_all add: log_to_def)

lemma after_loop_fields [simp]:
  "attempts (snd (after_loop e lr le t)) = attempts t"
  "sleeps (snd (after_loop e lr le t)) = sleeps t"
  "closed_bodies (snd (after_loop e lr le t)) = closed_bodies t"
  "fst (after_loop e lr le t) = (lr, le)"
  by (simp_all add: after_loop_def split: option.splits)

lemma closed_at_fields [simp]:
  "attempts (closed_at a resp t) = attempts t"
  "sleeps (closed_at a resp t) = sleeps t"
  by (simp_all add: closed_at_def)

lemma retry_loop_done:
  "\<not> int a \<le> MaxRetries rc \<Longrightarrow> retry_loop e rc a d lr le t = after_loop e lr le t"
  by (subst retry_loop.simps) simp

lemma retry_loop_cancel_head:
  "int a \<le> MaxRetries rc \<Longrightarrow> ctx_Err e (2 * a) = Some ce \<Longrightarrow>
   retry_loop e rc a d lr le t = ((None, Some ce), t)"
  by (subst retry_loop.simps) simp

lemma retry_loop_success:
  "int a \<le> MaxRetries rc \<Longrightarrow> ctx_Err e (2 * a) = None \<Longrightarrow> responses e a = (resp, err) \<Longrightarrow>
   is_success resp err \<Longrightarrow>
   retry_loop e rc a d lr le t = ((resp, None), t\<lparr>attempts := attempts t + 1\<rparr>)"
  by (subst retry_loop.simps) simp

lemma retry_loop_no_retry:
  "int a \<le> MaxRetries rc \<Longrightarrow> ctx_Err e (2 * a) = None \<Longrightarrow> responses e a = (resp, err) \<Longrightarrow>
   \<not> is_success resp err \<Longrightarrow> \<not> shouldRetry resp err \<Longrightarrow>
   retry_loop e rc a d lr le t = ((resp, err), t\<lparr>attempts := attempts t + 1\<rparr>)"
  by (subst retry_loop.simps) simp

lemma retry_loop_last:
  "int a = MaxRetries rc \<Longrightarrow> ctx_Err e (2 * a) = None \<Longrightarrow> responses e a = (resp, err) \<Longrightarrow>
   shouldRetry resp err \<Longrightarrow>
   retry_loop e rc a d lr le t =
     after_loop e (close_body resp) err (closed_at a resp (t\<lparr>attempts := attempts t + 1\<rparr>))"
  by (subst retry_loop.simps) (simp add: shouldRetry_not_success closed_at_def)

lemma retry_loop_cancel_wait:
  "int a < MaxRetries rc \<Longrightarrow> ctx_Err e (2 * a) = None \<Longrightarrow> responses e a = (resp, err) \<Longrightarrow>
   shouldRetry resp err \<Longrightarrow> ctx_Err e (2 * a + 1) = Some ce \<Longrightarrow>
   retry_loop e rc a d lr le t =
     ((None, Some ce),
      (log_to e (LogRetrying (int a + 1) (MaxRetries rc) d)
         (closed_at a resp (t\<lparr>attempts := attempts t + 1\<rparr>)))
       \<lparr>sleeps := sleeps t @ [d]\<rparr>)"
  by (subst retry_loop.simps) (simp add: shouldRetry_not_success closed_at_def Let_def)

lemma retry_loop_continue:
  "int a < MaxRetries rc \<Longrightarrow> ctx_Err e (2 * a) = None \<Longrightarrow> responses e a = (resp, err) \<Longrightarrow>
   shouldRetry resp err \<Longrightarrow> ctx_Err e (2 * a + 1) = None \<Longrightarrow>
   retry_loop e rc a d lr le t =
     retry_loop e rc (a + 1) (next_delay (out_of_range e) (Multiplier rc) (MaxDelay rc) d) (close_body resp) err
       ((log_to e (LogRetrying (int a + 1) (MaxRetries rc) d)
           (closed_at a resp (t\<lparr>attempts := attempts t + 1\<rparr>)))
        \<lparr>sleeps := sleeps t @ [d]\<rparr>)"
  by (subst retry_loop.simps) (simp add: shouldRetry_not_success closed_at_def Let_def)

section \<open>Invariants of the retry loop\<close>

text \<open>
  Whatever the environment does, the delays slept are an initial segment of the
  backoff sequence that starts at the current delay, and every wait is preceded
  by an attempt.
\<close>

lemma retry_loop_shape:
  "\<exists>k. int k \<le> MaxRetries rc - int a \<and>
       sleeps (snd (retry_loop e rc a d lr le t)) = sleeps t @ backoff_delays (out_of_range e) (Multiplier rc) (MaxDelay rc) d k \<and>
       attempts t \<le> attempts (snd (retry_loop e rc a d lr le t)) \<and>
       attempts (snd (retry_loop e rc a d lr le t)) \<le> attempts t + k + 1"
  if "int a \<le> MaxRetries rc"
  using that
proof (induction "nat (MaxRetries rc - int a)" arbitrary: a d lr le t)
  case 0
  then have eq: "int a = MaxRetries rc" by simp
  obtain resp err where r: "responses e a = (resp, err)" by (cases "responses e a")
  show ?case
  proof (cases "ctx_Err e (2 * a)")
    case (Some ce)
    then show ?thesis using eq
      by (intro exI[of _ 0]) (simp add: retry_loop_cancel_head)
  next
    case None
    show ?thesis
    proof (cases "is_success resp err")
      case True
      then show ?thesis using eq None r
        by (intro exI[of _ 0]) (simp add: retry_loop_success)
    next
      case ns: False
      show ?thesis
      proof (cases "shouldRetry resp err")
        case False
        then show ?thesis using eq None r ns
          by (intro exI[of _ 0]) (simp add: retry_loop_no_retry)
      next
        case True
        then show ?thesis using eq None r
          by (intro exI[of _ 0]) (simp add: retry_loop_last)
      qed
    qed
  qed
next
  case (Suc n)
  then have lt: "int a < MaxRetries rc" and le: "int a \<le> MaxRetries rc" by linarith+
  obtain resp err where r: "responses e a = (resp, err)" by (cases "responses e a")
  show ?case
  proof (cases "ctx_Err e (2 * a)")
    case (Some ce)
    then show ?thesis using le
      by (intro exI[of _ 0]) (simp add: retry_loop_cancel_head)
  next
    case None
    show ?thesis
    proof (cases "is_success resp err")
      case True
      then show ?thesis using le None r
        by (intro exI[of _ 0]) (simp add: retry_loop_success)
    next
      case ns: False
      show ?thesis
      proof (cases "shouldRetry resp err")
        case False
        then show ?thesis using le None r ns
          by (intro exI[of _ 0]) (simp add: retry_loop_no_retry)
      next
        case sr: True
        show ?thesis
        proof (cases "ctx_Err e (2 * a + 1)")
          case (Some ce)
          then show ?thesis using lt None r sr
            by (intro exI[of _ 1]) (simp add: retry_loop_cancel_wait)
        next
          case nw: None
          let ?d' = "next_delay (out_of_range e) (Multiplier rc) (MaxDelay rc) d"
          let ?t' = "(log_to e (LogRetrying (int a + 1) (MaxRetries rc) d)
                        (closed_at a resp (t\<lparr>attempts := attempts t + 1\<rparr>)))
                     \<lparr>sleeps := sleeps t @ [d]\<rparr>"
          have step: "retry_loop e rc a d lr le t = retry_loop e rc (a + 1) ?d' (close_body resp) err ?t'"
            using lt None r sr nw by (rule retry_loop_continue)
          have "n = nat (MaxRetries rc - int (a + 1))" using Suc.hyps(2) by simp
          moreover have "int (a + 1) \<le> MaxRetries rc" using lt by simp
          ultimately obtain k where k: "int k \<le> MaxRetries rc - int (a + 1)"
            "sleeps (snd (retry_loop e rc (a + 1) ?d' (close_body resp) err ?t')) =
               sleeps ?t' @ backoff_delays (out_of_range e) (Multiplier rc) (MaxDelay rc) ?d' k"
            "attempts ?t' \<le> attempts (snd (retry_loop e rc (a + 1) ?d' (close_body resp) err ?t'))"
            "attempts (snd (retry_loop e rc (a + 1) ?d' (close_body resp) err ?t')) \<le> attempts ?t' + k + 1"
            using Suc.hyps(1)[of "a + 1" ?d' "close_body resp" err ?t'] by blast
          show ?thesis
            using k unfolding step
            by (intro exI[of _ "Suc k"]) simp
        qed
      qed
    qed
  qed
qed

lemma backoff_delays_length [simp]: "length (backoff_delays oor m maxd d k) = k"
  by (induction k arbitrary: d) simp_all

lemma next_delay_min: "next_delay oor m maxd d = min (scale_duration oor d m) maxd"
  by (simp add: next_delay_def Let_def min_def)

lemma backoff_delays_nth_Suc:
  "Suc i < k \<Longrightarrow>
   backoff_delays oor m maxd d k ! Suc i =
     next_delay oor m maxd (backoff_delays oor m maxd d k ! i)"
proof (induction k arbitrary: d i)
  case 0
  then show ?case by simp
next
  case (Suc k)
  show ?case
  proof (cases i)
    case 0
    then show ?thesis using Suc.prems by (cases k) simp_all
  next
    case (Suc j)
    then show ?thesis using Suc.IH[of j] Suc.prems by simp
  qed
qed

lemma backoff_delays_bound:
  "d \<le> maxd \<Longrightarrow> x \<in> set (backoff_delays oor m maxd d k) \<Longrightarrow> x \<le> maxd"
proof (induction k arbitrary: d)
  case 0
  then show ?case by simp
next
  case (Suc k)
  have "next_delay oor m maxd d \<le> maxd" by (simp add: next_delay_min)
  then show ?case using Suc by auto
qed

lemma executeWithRetry_shape:
  "\<exists>k. k \<le> nat (MaxRetries rc) \<and>
       sleeps (retry_trace e (Some rc)) = backoff_delays (out_of_range e) (Multiplier rc) (MaxDelay rc) (InitialDelay rc) k \<and>
       attempts (retry_trace e (Some rc)) \<le> k + 1"
proof (cases "0 \<le> MaxRetries rc")
  case True
  then have "int 0 \<le> MaxRetries rc" by simp
  from retry_loop_shape[OF this, of e "InitialDelay rc" None None trace0]
  obtain k where k: "int k \<le> MaxRetries rc - int 0"
    "sleeps (snd (retry_loop e rc 0 (InitialDelay rc) None None trace0)) =
       sleeps trace0 @ backoff_delays (out_of_range e) (Multiplier rc) (MaxDelay rc) (InitialDelay rc) k"
    "attempts (snd (retry_loop e rc 0 (InitialDelay rc) None None trace0)) \<le> attempts trace0 + k + 1"
    by blast
  have "k \<le> nat (MaxRetries rc)" using k(1) by simp
  then show ?thesis using k(2,3)
    by (intro exI[of _ k]) (simp add: retry_trace_def executeWithRetry_def trace0_def)
next
  case False
  then show ?thesis
    by (intro exI[of _ 0])
      (simp add: retry_trace_def executeWithRetry_def retry_loop_done trace0_def)
qed

text \<open>
  Where the scaling of a delay is exact: the delay and its product with the
  multiplier's numerator are below \<open>2 ^ 53\<close> in size, so that neither the
  conversion to float64 nor the multiplication rounds, and the multiplier
  \<open>m * 2 ^ e\<close> has an exponent from \<open>- 1074\<close> to \<open>10\<close>, so that the product is
  an int64. Then the scaled delay is the exact product, truncated toward zero.
\<close>

lemma bitlen_le: "0 < x \<Longrightarrow> x < 2 ^ n \<Longrightarrow> bitlen x \<le> int n"
proof -
  assume x: "0 < x" "x < 2 ^ n"
  have "(2::int) ^ nat (bitlen x - 1) \<le> x" using bitlen_bounds[OF x(1)] by simp
  from this x(2) have "(2::int) ^ nat (bitlen x - 1) < 2 ^ n" by (rule le_less_trans)
  then have "nat (bitlen x - 1) < n" by (rule power_less_imp_less_exp[rotated]) simp
  then show ?thesis by simp
qed

lemma fround_exact:
  assumes "\<bar>m\<bar> < 2 ^ 53" and "- 1074 \<le> e" and "e \<le> 10"
  shows "fround m e = Finite (if m = 0 then 0 else m) (if m = 0 then 0 else e)"
proof (cases "m = 0")
  case True
  then show ?thesis by (simp add: fround_def)
next
  case False
  then have "0 < \<bar>m\<bar>" by simp
  from bitlen_le[OF this assms(1)] have b: "bitlen \<bar>m\<bar> \<le> 53" by simp
  then have "max (bitlen \<bar>m\<bar> - 53) (- 1074 - e) \<le> 0" using assms(2) by simp
  then show ?thesis using False b assms(3) by (simp add: fround_def Let_def)
qed

lemma trunc_fraction_zero [simp]: "trunc_fraction 0 e = 0"
  by (simp add: trunc_fraction_def)

lemma trunc_fraction_whole [simp]: "trunc_fraction m 0 = m"
  by (simp add: trunc_fraction_def)

lemma trunc_fraction_bound:
  assumes "\<bar>m\<bar> < 2 ^ 53" and "e \<le> 10"
  shows "\<bar>trunc_fraction m e\<bar> < 2 ^ 63"
proof (cases "e \<ge> 0")
  case True
  then have "nat e \<le> 10" using assms(2) by simp
  then have "(2::int) ^ nat e \<le> 2 ^ 10" by (intro power_increasing) simp_all
  then have "\<bar>m\<bar> * 2 ^ nat e \<le> \<bar>m\<bar> * 2 ^ 10"
    by (intro mult_left_mono) simp_all
  also have "\<dots> < 2 ^ 53 * 2 ^ 10" using assms(1) by simp
  finally show ?thesis using True by (simp add: trunc_fraction_def abs_mult)
next
  case False
  have p: "(0::int) < 2 ^ nat (- e)" by simp
  have "\<bar>m\<bar> div 2 ^ nat (- e) \<le> \<bar>m\<bar> div 1"
    by (rule zdiv_mono2) simp_all
  then have "\<bar>m\<bar> div 2 ^ nat (- e) \<le> \<bar>m\<bar>" by simp
  moreover have "0 \<le> \<bar>m\<bar> div 2 ^ nat (- e)"
    using p by (simp add: pos_imp_zdiv_nonneg_iff)
  ultimately show ?thesis using False assms(1)
    by (auto simp: trunc_fraction_def abs_if split: if_splits)
qed

lemma scale_duration_exact:
  assumes "\<bar>d\<bar> < 2 ^ 53" and "\<bar>d * m\<bar> < 2 ^ 53" and "- 1074 \<le> e" and "e \<le> 10"
  shows "scale_duration oor d (Finite m e) = trunc_fraction (d * m) e"
proof (cases "d * m = 0")
  case True
  have "fmul (float64_of_int d) (Finite m e) = Finite 0 0"
  proof (cases "d = 0")
    case True
    then show ?thesis by (simp add: float64_of_int_def fround_def)
  next
    case False
    then have "m = 0" using True by simp
    moreover have "float64_of_int d = Finite d 0"
      using fround_exact[OF assms(1), of 0] False by (simp add: float64_of_int_def)
    ultimately show ?thesis by (simp add: fround_def)
  qed
  moreover have "trunc_fraction (d * m) e = 0" unfolding True by simp
  ultimately show ?thesis
    by (simp add: scale_duration_def int64_of_float64_def Let_def)
next
  case False
  then have d: "d \<noteq> 0" by auto
  have "float64_of_int d = Finite d 0"
    using fround_exact[OF assms(1), of 0] d by (simp add: float64_of_int_def)
  then have f: "fmul (float64_of_int d) (Finite m e) = Finite (d * m) e"
    using fround_exact[OF assms(2,3,4)] False by simp
  have "\<bar>trunc_fraction (d * m) e\<bar> < 2 ^ 63" using trunc_fraction_bound[OF assms(2,4)] .
  then have "- (2 ^ 63) \<le> trunc_fraction (d * m) e \<and> trunc_fraction (d * m) e < 2 ^ 63" by linarith
  then show ?thesis using f
    by (simp add: scale_duration_def int64_of_float64_def Let_def)
qed

text \<open>
  Whatever the platform does out of range, the scaled delay is an int64.
\<close>

lemma wrap64_range: "- (2 ^ 63) \<le> wrap64 i \<and> wrap64 i < 2 ^ 63"
  using pos_mod_sign[of "2 ^ 64 :: int" "i + 2 ^ 63"] pos_mod_bound[of "2 ^ 64 :: int" "i + 2 ^ 63"]
  by (simp add: wrap64_def)

lemma scale_duration_int64:
  "- (2 ^ 63) \<le> scale_duration oor d m \<and> scale_duration oor d m < 2 ^ 63"
  using wrap64_range[of "oor (fmul (float64_of_int d) m)"]
  by (auto simp: scale_duration_def int64_of_float64_def Let_def split: float64.splits)

text \<open>
  The run in which every permitted attempt is retryable and the context is never
  seen done: all \<open>MaxRetries + 1\<close> attempts are made and the loop falls through.
\<close>

lemma retry_loop_exhaust:
  assumes "int a \<le> MaxRetries rc"
    and "\<And>i. a \<le> i \<Longrightarrow> int i \<le> MaxRetries rc \<Longrightarrow>
           shouldRetry (fst (responses e i)) (snd (responses e i))"
    and "\<And>cp. int cp \<le> 2 * MaxRetries rc \<Longrightarrow> ctx_Err e cp = None"
  shows "fst (retry_loop e rc a d lr le t) =
           (close_body (fst (responses e (nat (MaxRetries rc)))), snd (responses e (nat (MaxRetries rc))))
       \<and> attempts (snd (retry_loop e rc a d lr le t)) = attempts t + (nat (MaxRetries rc) + 1 - a)
       \<and> closed_bodies (snd (retry_loop e rc a d lr le t)) =
           closed_bodies t @ filter (\<lambda>i. has_body (fst (responses e i))) [a..<nat (MaxRetries rc) + 1]
       \<and> sleeps (snd (retry_loop e rc a d lr le t)) =
           sleeps t @ backoff_delays (out_of_range e) (Multiplier rc) (MaxDelay rc) d (nat (MaxRetries rc) - a)"
  using assms(1,2)
proof (induction "nat (MaxRetries rc - int a)" arbitrary: a d lr le t)
  case 0
  then have eq: "int a = MaxRetries rc" by simp
  then have a: "nat (MaxRetries rc) = a" by simp
  obtain resp err where r: "responses e a = (resp, err)" by (cases "responses e a")
  have sr: "shouldRetry resp err" using "0.prems"(2)[of a] eq r by simp
  have c: "ctx_Err e (2 * a) = None" using assms(3)[of "2 * a"] eq by simp
  have up: "[a..<Suc a] = [a]" by simp
  show ?case
    unfolding retry_loop_last[OF eq c r sr] a
    by (simp add: r closed_at_def up del: upt_Suc)
next
  case (Suc n)
  then have lt: "int a < MaxRetries rc" by linarith
  obtain resp err where r: "responses e a = (resp, err)" by (cases "responses e a")
  have sr: "shouldRetry resp err" using Suc.prems(2)[of a] lt r by simp
  have c: "ctx_Err e (2 * a) = None" using assms(3)[of "2 * a"] lt by simp
  have w: "ctx_Err e (2 * a + 1) = None" using assms(3)[of "2 * a + 1"] lt by simp
  have n: "n = nat (MaxRetries rc - int (a + 1))" using Suc.hyps(2) by simp
  have le': "int (a + 1) \<le> MaxRetries rc" using lt by simp
  have rest: "\<And>i. a + 1 \<le> i \<Longrightarrow> int i \<le> MaxRetries rc \<Longrightarrow>
           shouldRetry (fst (responses e i)) (snd (responses e i))"
    using Suc.prems(2) by simp
  have up: "[a..<nat (MaxRetries rc) + 1] = a # [a + 1..<nat (MaxRetries rc) + 1]"
    using lt by (simp add: upt_conv_Cons del: upt_Suc)
  have k: "nat (MaxRetries rc) - a = Suc (nat (MaxRetries rc) - (a + 1))"
    using lt by linarith
  have cnt: "Suc (nat (MaxRetries rc)) - a = Suc (nat (MaxRetries rc) - a)"
    using lt by linarith
  show ?case
    unfolding retry_loop_continue[OF lt c r sr w] up k
    using Suc.hyps(1)[OF n le' rest]
    by (simp add: r closed_at_def cnt)
qed

text \<open>
  The runs in which the context is done from checkpoint \<open>k\<close> on.
\<close>

lemma retry_loop_cancel_bound:
  assumes "ctx_done_at e = Some k"
  shows "attempts (snd (retry_loop e rc a d lr le t)) \<le> attempts t + ((k + 1) div 2 - a)"
proof (cases "int a \<le> MaxRetries rc")
  case False
  then show ?thesis by (simp add: retry_loop_done)
next
  case True
  then show ?thesis
  proof (induction "nat (MaxRetries rc - int a)" arbitrary: a d lr le t)
    case 0
    then have eq: "int a = MaxRetries rc" by simp
    obtain resp err where r: "responses e a = (resp, err)" by (cases "responses e a")
    show ?case
    proof (cases "ctx_Err e (2 * a)")
      case (Some ce)
      then show ?thesis using eq by (simp add: retry_loop_cancel_head)
    next
      case None
      then have "2 * a < k" using assms by (simp add: ctx_Err_def split: if_splits)
      then have one: "1 \<le> (k + 1) div 2 - a" by linarith
      show ?thesis
      proof (cases "is_success resp err")
        case True
        then show ?thesis using eq None r one by (simp add: retry_loop_success)
      next
        case ns: False
        show ?thesis
        proof (cases "shouldRetry resp err")
          case False
          then show ?thesis using eq None r ns one by (simp add: retry_loop_no_retry)
        next
          case True
          then show ?thesis using eq None r one by (simp add: retry_loop_last)
        qed
      qed
    qed
  next
    case (Suc n)
    then have lt: "int a < MaxRetries rc" and le: "int a \<le> MaxRetries rc" by linarith+
    obtain resp err where r: "responses e a = (resp, err)" by (cases "responses e a")
    show ?case
    proof (cases "ctx_Err e (2 * a)")
      case (Some ce)
      then show ?thesis using le by (simp add: retry_loop_cancel_head)
    next
      case None
      then have "2 * a < k" using assms by (simp add: ctx_Err_def split: if_splits)
      then have one: "1 \<le> (k + 1) div 2 - a" by linarith
      show ?thesis
      proof (cases "is_success resp err")
        case True
        then show ?thesis using le None r one by (simp add: retry_loop_success)
      next
        case ns: False
        show ?thesis
        proof (cases "shouldRetry resp err")
          case False
          then show ?thesis using le None r ns one by (simp add: retry_loop_no_retry)
        next
          case sr: True
          show ?thesis
          proof (cases "ctx_Err e (2 * a + 1)")
            case (Some ce)
            then show ?thesis using lt None r sr one by (simp add: retry_loop_cancel_wait)
          next
            case nw: None
            then have "2 * a + 1 < k" using assms by (simp add: ctx_Err_def split: if_splits)
            then have two: "(k + 1) div 2 - a = Suc ((k + 1) div 2 - (a + 1))" by linarith
            have n: "n = nat (MaxRetries rc - int (a + 1))" using Suc.hyps(2) by simp
            have le': "int (a + 1) \<le> MaxRetries rc" using lt by simp
            show ?thesis
              unfolding retry_loop_continue[OF lt None r sr nw] two
              using Suc.hyps(1)[OF n le']
              by (rule order_trans) simp
          qed
        qed
      qed
    qed
  qed
qed

lemma retry_loop_cancelled:
  assumes "ctx_done_at e = Some k" and "int k \<le> 2 * MaxRetries rc"
    and "\<And>j. 2 * j < k \<Longrightarrow> shouldRetry (fst (responses e j)) (snd (responses e j))"
    and "2 * a \<le> k"
  shows "fst (retry_loop e rc a d lr le t) = (None, Some (ctx_err e))
       \<and> attempts (snd (retry_loop e rc a d lr le t)) = attempts t + ((k + 1) div 2 - a)"
  using assms(4)
proof (induction "k - 2 * a" arbitrary: a d lr le t rule: less_induct)
  case less
  have le: "int a \<le> MaxRetries rc" using less.prems assms(2) by linarith
  show ?case
  proof (cases "k = 2 * a")
    case True
    then have "ctx_Err e (2 * a) = Some (ctx_err e)" using assms(1) by (simp add: ctx_Err_def)
    then show ?thesis using le True by (simp add: retry_loop_cancel_head)
  next
    case False
    then have gt: "2 * a < k" using less.prems by simp
    then have c: "ctx_Err e (2 * a) = None" using assms(1) by (simp add: ctx_Err_def)
    obtain resp err where r: "responses e a = (resp, err)" by (cases "responses e a")
    have sr: "shouldRetry resp err" using assms(3)[OF gt] r by simp
    have lt: "int a < MaxRetries rc" using gt assms(2) by linarith
    show ?thesis
    proof (cases "k = 2 * a + 1")
      case True
      then have w: "ctx_Err e (2 * a + 1) = Some (ctx_err e)" using assms(1) by (simp add: ctx_Err_def)
      show ?thesis
        unfolding retry_loop_cancel_wait[OF lt c r sr w] using True by simp
    next
      case ne: False
      then have gt2: "2 * (a + 1) \<le> k" using gt by simp
      then have w: "ctx_Err e (2 * a + 1) = None" using assms(1) by (simp add: ctx_Err_def)
      have dec: "k - 2 * (a + 1) < k - 2 * a" using gt2 by simp
      have two: "(k + 1) div 2 - a = Suc ((k + 1) div 2 - (a + 1))" using gt2 by presburger
      show ?thesis
        unfolding retry_loop_continue[OF lt c r sr w] two
        using less.hyps[OF dec gt2] by simp
    qed
  qed
qed

text \<open>The equations that evaluate a concrete run.\<close>

lemmas retry_eval = executeWithRetry_def retry_trace_def retry_result_def retry_loop.simps ctx_Err_def
     is_success_def shouldRetry_def has_body_def close_body_def after_loop_def log_to_def trace0_def
     next_delay_def millisecond_def second_def Let_def

text \<open>The equations that evaluate the scaling of a concrete delay.\<close>

lemmas float_eval = scale_duration_def int64_of_float64_def float64_of_int_def fround_def
  round_half_even_def trunc_fraction_def wrap64_def amd64_def compute_bitlen Let_def

text \<open>
  Some scaled delays. The float64 nearest to \<open>4 / 3\<close> is
  \<open>6004799503160661 * 2 ^ (- 52)\<close>, a little below \<open>4 / 3\<close>; three times it is a
  little below 4, and rounds to the float64 \<open>4.0\<close>. \<open>2 ^ 53 + 1\<close> is no float64
  and is rounded to \<open>2 ^ 53\<close>. One second times \<open>1e10\<close> is no int64, nor is an
  infinity.
\<close>

lemma scale_duration_examples:
  "scale_duration oor 3 (Finite 6004799503160661 (- 52)) = 4"
  "scale_duration oor 4 (Finite 6004799503160661 (- 52)) = 5"
  "scale_duration oor 9007199254740993 (Finite 1 0) = 9007199254740992"
  "scale_duration oor (100 * millisecond) (Finite 3 (- 1)) = 150 * millisecond"
  "scale_duration amd64 (1 * second) (Finite 10000000000 0) = - 9223372036854775808"
  "scale_duration amd64 (1 * second) (Finite 1 1000) = - 9223372036854775808"
  "scale_duration amd64 (1 * second) (Infinity True) = - 9223372036854775808"
  "scale_duration amd64 (1 * second) NaN = - 9223372036854775808"
  by (simp_all add: float_eval millisecond_def second_def)

section \<open>The retry classifier\<close>

text \<open>
  C5. \<^verbatim>\<open>shouldRetry\<close> returns true exactly when the error is non-nil, or the
  response is absent, or the status is at least 500, or the status is 429. Hence,
  with no error and a response, it returns false for every 2xx status and for
  every 4xx status other than 429; and with neither a response nor an error it
  returns true.
\<close>

theorem shouldRetry_iff:
  "(shouldRetry resp err \<longleftrightarrow>
      err \<noteq> None \<or> resp = None \<or> (\<exists>r. resp = Some r \<and> (StatusCode r \<ge> 500 \<or> StatusCode r = 429)))
   \<and> (\<forall>r. 200 \<le> StatusCode r \<and> StatusCode r < 300 \<longrightarrow> \<not> shouldRetry (Some r) None)
   \<and> (\<forall>r. 400 \<le> StatusCode r \<and> StatusCode r < 500 \<and> StatusCode r \<noteq> 429 \<longrightarrow>
          \<not> shouldRetry (Some r) None)
   \<and> shouldRetry None None"
  by (auto simp: shouldRetry_def split: option.splits)

theorem shouldRetry_iff_witness:
  "\<not> shouldRetry (Some \<lparr>StatusCode = 204, Body = None\<rparr>) None
   \<and> \<not> shouldRetry (Some \<lparr>StatusCode = 404, Body = Some BodyOpen\<rparr>) None
   \<and> shouldRetry (Some \<lparr>StatusCode = 429, Body = Some BodyOpen\<rparr>) None
   \<and> shouldRetry (Some \<lparr>StatusCode = 503, Body = Some BodyOpen\<rparr>) None
   \<and> shouldRetry (Some \<lparr>StatusCode = 200, Body = Some BodyOpen\<rparr>) (Some (NetError ''reset''))"
  using shouldRetry_iff [of "Some \<lparr>StatusCode = 204, Body = None\<rparr>" None]
    shouldRetry_iff [of "Some \<lparr>StatusCode = 404, Body = Some BodyOpen\<rparr>" None]
    shouldRetry_iff [of "Some \<lparr>StatusCode = 429, Body = Some BodyOpen\<rparr>" None]
    shouldRetry_iff [of "Some \<lparr>StatusCode = 503, Body = Some BodyOpen\<rparr>" None]
    shouldRetry_iff [of "Some \<lparr>StatusCode = 200, Body = Some BodyOpen\<rparr>" "Some (NetError ''reset'')"]
  by simp

section \<open>The retry executor\<close>

text \<open>
  C3. When \<^verbatim>\<open>executeWithRetry\<close> exhausts its attempts without an early return
  (every attempt \<open>0 .. MaxRetries\<close> is retryable and the context is never seen
  done), it returns the outcome of the last attempt: its error, nil or not, and
  its response, whatever its status; no error is made up when the last attempt
  produced a response. Exactly \<open>MaxRetries + 1\<close> attempts were made.
\<close>

theorem exhaustion_returns_last_outcome:
  assumes "0 \<le> MaxRetries rc"
    and "\<forall>i \<le> nat (MaxRetries rc). shouldRetry (fst (responses e i)) (snd (responses e i))"
    and "\<forall>cp. int cp \<le> 2 * MaxRetries rc \<longrightarrow> ctx_Err e cp = None"
  shows "snd (retry_result e (Some rc)) = snd (responses e (nat (MaxRetries rc)))
       \<and> fst (retry_result e (Some rc)) = close_body (fst (responses e (nat (MaxRetries rc))))
       \<and> map_option StatusCode (fst (retry_result e (Some rc))) =
           map_option StatusCode (fst (responses e (nat (MaxRetries rc))))
       \<and> attempts (retry_trace e (Some rc)) = nat (MaxRetries rc) + 1"
proof -
  have a: "int 0 \<le> MaxRetries rc" using assms(1) by simp
  have b: "\<And>i. 0 \<le> i \<Longrightarrow> int i \<le> MaxRetries rc \<Longrightarrow>
           shouldRetry (fst (responses e i)) (snd (responses e i))"
    using assms(2) by simp
  have c: "\<And>cp. int cp \<le> 2 * MaxRetries rc \<Longrightarrow> ctx_Err e cp = None"
    using assms(3) by simp
  have st: "map_option StatusCode (close_body resp) = map_option StatusCode resp" for resp
    by (simp add: close_body_def split: option.splits)
  from retry_loop_exhaust[OF a b c, of "InitialDelay rc" None None trace0]
  show ?thesis
    by (simp add: retry_result_def retry_trace_def executeWithRetry_def trace0_def st)
qed

theorem exhaustion_returns_last_outcome_witness:
  "retry_result always_503 (Some DefaultRetryConfig) =
     (Some \<lparr>StatusCode = 503, Body = Some BodyClosed\<rparr>, None)
   \<and> attempts (retry_trace always_503 (Some DefaultRetryConfig)) = 4"
  using exhaustion_returns_last_outcome [of DefaultRetryConfig always_503]
  by (simp add: always_503_def DefaultRetryConfig_def shouldRetry_def ctx_Err_def close_body_def
      prod_eq_iff)

text \<open>
  C4, as stated, makes every delay after the first the minimum of \<open>MaxDelay\<close>
  and the previous delay times the multiplier. The code takes that product in
  float64 and converts it back to an int64. In both runs below every attempt
  ends in status 503, \<open>InitialDelay \<le> MaxDelay\<close> and the multiplier is at least 1.
  \<^item> With \<open>InitialDelay = MaxDelay = 2 ^ 53 + 1\<close> nanoseconds and the multiplier
    \<open>1.0\<close>, the conversion of the delay to float64 rounds it to \<open>2 ^ 53\<close>: the
    second delay is one nanosecond shorter than the first, where the claim
    makes them equal.
  \<^item> With \<open>InitialDelay\<close> one second, \<open>MaxDelay\<close> two seconds and the multiplier
    \<open>1e10\<close>, the product \<open>1e19\<close> is no int64; on amd64 the conversion yields the
    smallest int64, which is not above \<open>MaxDelay\<close> and so is kept: the second
    delay is negative, where the claim makes it \<open>MaxDelay\<close>.
\<close>

theorem backoff_not_exact_product:
  "InitialDelay long_delays \<le> MaxDelay long_delays
   \<and> Multiplier long_delays = Finite 1 0
   \<and> sleeps (retry_trace always_503 (Some long_delays)) = [9007199254740993, 9007199254740992]
   \<and> sleeps (retry_trace always_503 (Some long_delays)) ! 1 \<noteq>
       min (sleeps (retry_trace always_503 (Some long_delays)) ! 0 * 1) (MaxDelay long_delays)
   \<and> InitialDelay steep_backoff \<le> MaxDelay steep_backoff
   \<and> Multiplier steep_backoff = Finite 10000000000 0
   \<and> sleeps (retry_trace always_503 (Some steep_backoff)) = [1000000000, - 9223372036854775808]
   \<and> sleeps (retry_trace always_503 (Some steep_backoff)) ! 1 \<noteq>
       min (sleeps (retry_trace always_503 (Some steep_backoff)) ! 0 * 10000000000)
         (MaxDelay steep_backoff)"
proof -
  have a: "sleeps (retry_trace always_503 (Some long_delays)) =
      [9007199254740993, 9007199254740992]"
    by (simp add: retry_eval float_eval always_503_def long_delays_def)
  have b: "sleeps (retry_trace always_503 (Some steep_backoff)) =
      [1000000000, - 9223372036854775808]"
    by (simp add: retry_eval float_eval always_503_def steep_backoff_def)
  show ?thesis
    unfolding a b by (simp add: long_delays_def steep_backoff_def second_def)
qed

text \<open>
  C4, amended. With \<open>InitialDelay \<le> MaxDelay\<close>, the delays that one call of
  \<^verbatim>\<open>executeWithRetry\<close> sleeps are: first \<open>InitialDelay\<close>, then each the minimum of
  \<open>MaxDelay\<close> and the previous one scaled as the code scales it, by
  \<^verbatim>\<open>time.Duration(float64(delay) * Multiplier)\<close> (see \<open>scale_duration\<close>: the delay
  rounded to float64, the product rounded to float64 and truncated toward zero,
  some int64 fixed by the platform when the product is out of range). Where the
  previous delay and its product with the numerator of the multiplier
  \<open>m * 2 ^ x\<close> are below \<open>2 ^ 53\<close> in size, and \<open>x\<close> is from \<open>- 1074\<close> to \<open>10\<close>,
  the scaled delay is the exact product truncated toward zero, so for a whole
  multiplier \<open>m\<close> the delay times \<open>m\<close>. No delay exceeds \<open>MaxDelay\<close>; there are at
  most \<open>MaxRetries\<close> delays and at most \<open>MaxRetries + 1\<close> calls of the attempt
  function. Nothing is asked of the multiplier.
\<close>

theorem backoff_schedule:
  assumes "InitialDelay rc \<le> MaxDelay rc"
  shows "(sleeps (retry_trace e (Some rc)) \<noteq> [] \<longrightarrow>
            sleeps (retry_trace e (Some rc)) ! 0 = InitialDelay rc)
       \<and> (\<forall>i. Suc i < length (sleeps (retry_trace e (Some rc))) \<longrightarrow>
            sleeps (retry_trace e (Some rc)) ! Suc i =
              min (scale_duration (out_of_range e) (sleeps (retry_trace e (Some rc)) ! i) (Multiplier rc)) (MaxDelay rc))
       \<and> (\<forall>i m x. Suc i < length (sleeps (retry_trace e (Some rc))) \<and> Multiplier rc = Finite m x
              \<and> - 1074 \<le> x \<and> x \<le> 10
              \<and> \<bar>sleeps (retry_trace e (Some rc)) ! i\<bar> < 2 ^ 53 \<and> \<bar>sleeps (retry_trace e (Some rc)) ! i * m\<bar> < 2 ^ 53 \<longrightarrow>
            sleeps (retry_trace e (Some rc)) ! Suc i = min (trunc_fraction (sleeps (retry_trace e (Some rc)) ! i * m) x) (MaxDelay rc))
       \<and> (\<forall>d \<in> set (sleeps (retry_trace e (Some rc))). d \<le> MaxDelay rc)
       \<and> length (sleeps (retry_trace e (Some rc))) \<le> nat (MaxRetries rc)
       \<and> attempts (retry_trace e (Some rc)) \<le> nat (MaxRetries rc) + 1"
proof -
  obtain k where k: "k \<le> nat (MaxRetries rc)"
    "sleeps (retry_trace e (Some rc)) =
       backoff_delays (out_of_range e) (Multiplier rc) (MaxDelay rc) (InitialDelay rc) k"
    "attempts (retry_trace e (Some rc)) \<le> k + 1"
    using executeWithRetry_shape by blast
  have first: "sleeps (retry_trace e (Some rc)) \<noteq> [] \<longrightarrow> sleeps (retry_trace e (Some rc)) ! 0 = InitialDelay rc"
    unfolding k(2) by (cases k) simp_all
  have step: "\<forall>i. Suc i < length (sleeps (retry_trace e (Some rc))) \<longrightarrow>
            sleeps (retry_trace e (Some rc)) ! Suc i =
              min (scale_duration (out_of_range e) (sleeps (retry_trace e (Some rc)) ! i) (Multiplier rc)) (MaxDelay rc)"
    unfolding k(2) by (simp add: backoff_delays_nth_Suc next_delay_min)
  have exact: "\<forall>i m x. Suc i < length (sleeps (retry_trace e (Some rc))) \<and> Multiplier rc = Finite m x
              \<and> - 1074 \<le> x \<and> x \<le> 10
              \<and> \<bar>sleeps (retry_trace e (Some rc)) ! i\<bar> < 2 ^ 53 \<and> \<bar>sleeps (retry_trace e (Some rc)) ! i * m\<bar> < 2 ^ 53 \<longrightarrow>
            sleeps (retry_trace e (Some rc)) ! Suc i = min (trunc_fraction (sleeps (retry_trace e (Some rc)) ! i * m) x) (MaxDelay rc)"
  proof (intro allI impI)
    fix i m x
    assume h: "Suc i < length (sleeps (retry_trace e (Some rc))) \<and> Multiplier rc = Finite m x
              \<and> - 1074 \<le> x \<and> x \<le> 10
              \<and> \<bar>sleeps (retry_trace e (Some rc)) ! i\<bar> < 2 ^ 53 \<and> \<bar>sleeps (retry_trace e (Some rc)) ! i * m\<bar> < 2 ^ 53"
    then have "scale_duration (out_of_range e) (sleeps (retry_trace e (Some rc)) ! i) (Finite m x) = trunc_fraction (sleeps (retry_trace e (Some rc)) ! i * m) x"
      by (intro scale_duration_exact) simp_all
    then show "sleeps (retry_trace e (Some rc)) ! Suc i = min (trunc_fraction (sleeps (retry_trace e (Some rc)) ! i * m) x) (MaxDelay rc)"
      using step h by simp
  qed
  have bound: "\<forall>d \<in> set (sleeps (retry_trace e (Some rc))). d \<le> MaxDelay rc"
    unfolding k(2) using backoff_delays_bound[OF assms] by blast
  have len: "length (sleeps (retry_trace e (Some rc))) \<le> nat (MaxRetries rc)"
    unfolding k(2) using k(1) by simp
  have att: "attempts (retry_trace e (Some rc)) \<le> nat (MaxRetries rc) + 1"
    using k(1,3) by linarith
  show ?thesis using first step exact bound len att by blast
qed

theorem backoff_schedule_witness:
  "InitialDelay DefaultRetryConfig \<le> MaxDelay DefaultRetryConfig
   \<and> sleeps (retry_trace always_503 (Some DefaultRetryConfig)) = [100 * millisecond, 200 * millisecond, 400 * millisecond]
   \<and> sleeps (retry_trace always_503 (Some DefaultRetryConfig)) ! 2 = min (scale_duration amd64 (sleeps (retry_trace always_503 (Some DefaultRetryConfig)) ! 1) (Finite 2 0)) (MaxDelay DefaultRetryConfig)
   \<and> sleeps (retry_trace always_503 (Some DefaultRetryConfig)) ! 2 = min (sleeps (retry_trace always_503 (Some DefaultRetryConfig)) ! 1 * 2) (MaxDelay DefaultRetryConfig)
   \<and> attempts (retry_trace always_503 (Some DefaultRetryConfig)) = 4"
proof -
  have s: "sleeps (retry_trace always_503 (Some DefaultRetryConfig)) = [100 * millisecond, 200 * millisecond, 400 * millisecond]"
    "attempts (retry_trace always_503 (Some DefaultRetryConfig)) = 4"
    by (simp_all add: retry_eval float_eval always_503_def DefaultRetryConfig_def)
  have h: "InitialDelay DefaultRetryConfig \<le> MaxDelay DefaultRetryConfig"
    by (simp add: DefaultRetryConfig_def millisecond_def second_def)
  have m: "Multiplier DefaultRetryConfig = Finite 2 0" "out_of_range always_503 = amd64"
    by (simp_all add: DefaultRetryConfig_def always_503_def)
  have l: "Suc 1 < length (sleeps (retry_trace always_503 (Some DefaultRetryConfig)))"
    by (simp add: s)
  from backoff_schedule [OF h, of always_503]
  have st: "\<forall>i. Suc i < length (sleeps (retry_trace always_503 (Some DefaultRetryConfig))) \<longrightarrow>
      sleeps (retry_trace always_503 (Some DefaultRetryConfig)) ! Suc i =
        min (scale_duration (out_of_range always_503) (sleeps (retry_trace always_503 (Some DefaultRetryConfig)) ! i) (Multiplier DefaultRetryConfig))
          (MaxDelay DefaultRetryConfig)"
    and ex: "\<forall>i m x. Suc i < length (sleeps (retry_trace always_503 (Some DefaultRetryConfig))) \<and> Multiplier DefaultRetryConfig = Finite m x
              \<and> - 1074 \<le> x \<and> x \<le> 10
              \<and> \<bar>sleeps (retry_trace always_503 (Some DefaultRetryConfig)) ! i\<bar> < 2 ^ 53 \<and> \<bar>sleeps (retry_trace always_503 (Some DefaultRetryConfig)) ! i * m\<bar> < 2 ^ 53 \<longrightarrow>
            sleeps (retry_trace always_503 (Some DefaultRetryConfig)) ! Suc i = min (trunc_fraction (sleeps (retry_trace always_503 (Some DefaultRetryConfig)) ! i * m) x) (MaxDelay DefaultRetryConfig)"
    by blast+
  have one: "sleeps (retry_trace always_503 (Some DefaultRetryConfig)) ! Suc 1 =
      min (scale_duration amd64 (sleeps (retry_trace always_503 (Some DefaultRetryConfig)) ! 1) (Finite 2 0)) (MaxDelay DefaultRetryConfig)"
    using st l m by simp
  have "\<bar>sleeps (retry_trace always_503 (Some DefaultRetryConfig)) ! 1\<bar> < 2 ^ 53 \<and> \<bar>sleeps (retry_trace always_503 (Some DefaultRetryConfig)) ! 1 * 2\<bar> < 2 ^ 53"
    by (simp add: s millisecond_def)
  then have "sleeps (retry_trace always_503 (Some DefaultRetryConfig)) ! Suc 1 = min (trunc_fraction (sleeps (retry_trace always_503 (Some DefaultRetryConfig)) ! 1 * 2) 0) (MaxDelay DefaultRetryConfig)"
    using ex l m(1) by simp
  then have two: "sleeps (retry_trace always_503 (Some DefaultRetryConfig)) ! Suc 1 = min (sleeps (retry_trace always_503 (Some DefaultRetryConfig)) ! 1 * 2) (MaxDelay DefaultRetryConfig)"
    by simp
  show ?thesis using s h one two by (simp add: numeral_2_eq_2)
qed

text \<open>
  C6. If the first attempt is made (the loop runs at least once and the context
  is not already done) and returns a 2xx response with no error, the call
  returns that outcome: exactly one attempt, no backoff wait, and the body is
  left open for the caller.
\<close>

theorem first_success_short_circuits:
  assumes "0 \<le> MaxRetries rc" and "ctx_Err e 0 = None"
    and "responses e 0 = (Some r, None)" and "200 \<le> StatusCode r" and "StatusCode r < 300"
  shows "retry_result e (Some rc) = (Some r, None)
       \<and> attempts (retry_trace e (Some rc)) = 1
       \<and> sleeps (retry_trace e (Some rc)) = []
       \<and> closed_bodies (retry_trace e (Some rc)) = []"
proof -
  have a: "int 0 \<le> MaxRetries rc" using assms(1) by simp
  have c: "ctx_Err e (2 * 0) = None" using assms(2) by simp
  have s: "is_success (Some r) None" using assms(4,5) by (simp add: is_success_def)
  show ?thesis
    by (simp add: retry_result_def retry_trace_def executeWithRetry_def
        retry_loop_success[OF a c assms(3) s] trace0_def)
qed

theorem first_success_short_circuits_witness:
  "retry_result ok_then_503 (Some DefaultRetryConfig) =
     (Some \<lparr>StatusCode = 200, Body = Some BodyOpen\<rparr>, None)
   \<and> attempts (retry_trace ok_then_503 (Some DefaultRetryConfig)) = 1
   \<and> sleeps (retry_trace ok_then_503 (Some DefaultRetryConfig)) = []"
  using first_success_short_circuits
    [of DefaultRetryConfig ok_then_503 "\<lparr>StatusCode = 200, Body = Some BodyOpen\<rparr>"]
  by (simp add: ok_then_503_def DefaultRetryConfig_def ctx_Err_def)

text \<open>
  C7. Let the context be done from checkpoint \<open>k\<close> on. Then no attempt is issued
  at or after that checkpoint: at most \<open>(k + 1) div 2\<close> attempts are made. If the
  run gets as far as checkpoint \<open>k\<close> (it exists, and every earlier attempt was
  retryable), the call returns \<open>(nil, ctx.Err())\<close> after exactly
  \<open>(k + 1) div 2\<close> attempts: for \<open>k = 2 * i\<close> the context is done at the head of
  iteration \<open>i\<close> and attempt \<open>i\<close> is not made; for \<open>k = 2 * i + 1\<close> it is done
  during the wait after attempt \<open>i\<close> and attempt \<open>i + 1\<close> is not made.
\<close>

theorem cancellation_stops_attempts:
  assumes "ctx_done_at e = Some k"
  shows "attempts (retry_trace e (Some rc)) \<le> (k + 1) div 2
       \<and> (int k \<le> 2 * MaxRetries rc
          \<and> (\<forall>j. 2 * j < k \<longrightarrow> shouldRetry (fst (responses e j)) (snd (responses e j)))
          \<longrightarrow> retry_result e (Some rc) = (None, Some (ctx_err e))
            \<and> attempts (retry_trace e (Some rc)) = (k + 1) div 2)"
proof -
  have "attempts (retry_trace e (Some rc)) \<le> (k + 1) div 2"
    using retry_loop_cancel_bound[OF assms, of rc 0 "InitialDelay rc" None None trace0]
    by (simp add: retry_trace_def executeWithRetry_def trace0_def)
  moreover have "retry_result e (Some rc) = (None, Some (ctx_err e))
            \<and> attempts (retry_trace e (Some rc)) = (k + 1) div 2"
    if "int k \<le> 2 * MaxRetries rc"
      and "\<forall>j. 2 * j < k \<longrightarrow> shouldRetry (fst (responses e j)) (snd (responses e j))"
  proof -
    have b: "\<And>j. 2 * j < k \<Longrightarrow> shouldRetry (fst (responses e j)) (snd (responses e j))"
      using that(2) by simp
    have z: "2 * 0 \<le> k" by simp
    from retry_loop_cancelled[OF assms that(1) b z, of "InitialDelay rc" None None trace0]
    show ?thesis
      by (simp add: retry_result_def retry_trace_def executeWithRetry_def trace0_def)
  qed
  ultimately show ?thesis by blast
qed

theorem cancellation_stops_attempts_witness:
  "ctx_done_at cancelled_in_first_wait = Some 1
   \<and> retry_result cancelled_in_first_wait (Some DefaultRetryConfig) = (None, Some Canceled)
   \<and> attempts (retry_trace cancelled_in_first_wait (Some DefaultRetryConfig)) = 1"
  using cancellation_stops_attempts [of cancelled_in_first_wait 1 DefaultRetryConfig]
  by (simp add: cancelled_in_first_wait_def DefaultRetryConfig_def shouldRetry_def)

text \<open>
  C9. The initial delay is not clamped: if \<open>InitialDelay > MaxDelay\<close>, at least
  one retry is permitted and the first attempt is made and is retryable, the
  first wait lasts \<open>InitialDelay\<close>, which exceeds \<open>MaxDelay\<close>; every later wait
  is at most \<open>MaxDelay\<close>.
\<close>

theorem initial_delay_not_clamped:
  assumes "MaxDelay rc < InitialDelay rc" and "1 \<le> MaxRetries rc" and "ctx_Err e 0 = None"
    and "shouldRetry (fst (responses e 0)) (snd (responses e 0))"
  shows "sleeps (retry_trace e (Some rc)) \<noteq> []
       \<and> sleeps (retry_trace e (Some rc)) ! 0 = InitialDelay rc
       \<and> MaxDelay rc < sleeps (retry_trace e (Some rc)) ! 0
       \<and> (\<forall>i. 0 < i \<and> i < length (sleeps (retry_trace e (Some rc))) \<longrightarrow>
            sleeps (retry_trace e (Some rc)) ! i \<le> MaxDelay rc)"
proof -
  let ?d = "next_delay (out_of_range e) (Multiplier rc) (MaxDelay rc) (InitialDelay rc)"
  have lt: "int 0 < MaxRetries rc" using assms(2) by simp
  have c: "ctx_Err e (2 * 0) = None" using assms(3) by simp
  obtain resp err where r: "responses e 0 = (resp, err)" by (cases "responses e 0")
  have sr: "shouldRetry resp err" using assms(4) r by simp
  have "\<exists>k. sleeps (retry_trace e (Some rc)) =
          InitialDelay rc # backoff_delays (out_of_range e) (Multiplier rc) (MaxDelay rc) ?d k"
  proof (cases "ctx_Err e (2 * 0 + 1)")
    case (Some ce)
    show ?thesis
      by (intro exI[of _ 0])
        (simp add: retry_trace_def executeWithRetry_def
          retry_loop_cancel_wait[OF lt c r sr Some] trace0_def)
  next
    case None
    let ?t = "(log_to e (LogRetrying (int 0 + 1) (MaxRetries rc) (InitialDelay rc))
                 (closed_at 0 resp (trace0\<lparr>attempts := attempts trace0 + 1\<rparr>)))
              \<lparr>sleeps := sleeps trace0 @ [InitialDelay rc]\<rparr>"
    have le1: "int (0 + 1) \<le> MaxRetries rc" using assms(2) by simp
    from retry_loop_shape[OF le1, of e ?d "close_body resp" err ?t]
    obtain k where "sleeps (snd (retry_loop e rc (0 + 1) ?d (close_body resp) err ?t)) =
        sleeps ?t @ backoff_delays (out_of_range e) (Multiplier rc) (MaxDelay rc) ?d k"
      by blast
    then show ?thesis
      by (intro exI[of _ k])
        (simp add: retry_trace_def executeWithRetry_def
          retry_loop_continue[OF lt c r sr None] trace0_def)
  qed
  then obtain k where k: "sleeps (retry_trace e (Some rc)) =
          InitialDelay rc # backoff_delays (out_of_range e) (Multiplier rc) (MaxDelay rc) ?d k"
    by blast
  have "?d \<le> MaxDelay rc" by (simp add: next_delay_min)
  then have "\<forall>x \<in> set (backoff_delays (out_of_range e) (Multiplier rc) (MaxDelay rc) ?d k). x \<le> MaxDelay rc"
    using backoff_delays_bound by blast
  then have "\<forall>i. 0 < i \<and> i < length (sleeps (retry_trace e (Some rc))) \<longrightarrow>
            sleeps (retry_trace e (Some rc)) ! i \<le> MaxDelay rc"
    unfolding k by (auto simp: nth_Cons split: nat.splits)
  then show ?thesis using k assms(1) by simp
qed

theorem initial_delay_not_clamped_witness:
  "sleeps (retry_trace always_503 (Some inverted_delays)) ! 0 = 10 * second
   \<and> sleeps (retry_trace always_503 (Some inverted_delays)) = [10 * second, 5 * second]
   \<and> MaxDelay inverted_delays < sleeps (retry_trace always_503 (Some inverted_delays)) ! 0"
proof -
  have s: "sleeps (retry_trace always_503 (Some inverted_delays)) = [10 * second, 5 * second]"
    by (simp add: retry_eval float_eval always_503_def inverted_delays_def)
  show ?thesis
    using initial_delay_not_clamped [of inverted_delays always_503] s
    by (simp add: always_503_def inverted_delays_def shouldRetry_def ctx_Err_def second_def)
qed

text \<open>
  C10. On the exhaustion path the body of every attempt's response that has one
  was closed inside the loop, the last attempt's included, and the response
  handed back to the caller is the response of the last attempt, the same in
  everything but that its body is now closed. A last response without a body,
  and the absence of a last response, are handed back as they are.
\<close>

theorem exhaustion_body_closed:
  assumes "0 \<le> MaxRetries rc"
    and "\<forall>i \<le> nat (MaxRetries rc). shouldRetry (fst (responses e i)) (snd (responses e i))"
    and "\<forall>cp. int cp \<le> 2 * MaxRetries rc \<longrightarrow> ctx_Err e cp = None"
  shows "closed_bodies (retry_trace e (Some rc)) =
           filter (\<lambda>i. has_body (fst (responses e i))) [0..<nat (MaxRetries rc) + 1]
       \<and> (\<forall>r b. fst (responses e (nat (MaxRetries rc))) = Some r \<and> Body r = Some b \<longrightarrow>
            nat (MaxRetries rc) \<in> set (closed_bodies (retry_trace e (Some rc)))
          \<and> fst (retry_result e (Some rc)) = Some (r\<lparr>Body := Some BodyClosed\<rparr>))
       \<and> (\<forall>r. fst (responses e (nat (MaxRetries rc))) = Some r \<and> Body r = None \<longrightarrow>
            fst (retry_result e (Some rc)) = Some r)
       \<and> (fst (responses e (nat (MaxRetries rc))) = None \<longrightarrow>
            fst (retry_result e (Some rc)) = None)"
proof -
  have a: "int 0 \<le> MaxRetries rc" using assms(1) by simp
  have b: "\<And>i. 0 \<le> i \<Longrightarrow> int i \<le> MaxRetries rc \<Longrightarrow>
           shouldRetry (fst (responses e i)) (snd (responses e i))"
    using assms(2) by simp
  have c: "\<And>cp. int cp \<le> 2 * MaxRetries rc \<Longrightarrow> ctx_Err e cp = None"
    using assms(3) by simp
  from retry_loop_exhaust[OF a b c, of "InitialDelay rc" None None trace0]
  have res: "fst (retry_result e (Some rc)) = close_body (fst (responses e (nat (MaxRetries rc))))"
    and cb: "closed_bodies (retry_trace e (Some rc)) =
           filter (\<lambda>i. has_body (fst (responses e i))) [0..<nat (MaxRetries rc) + 1]"
    by (simp_all add: retry_result_def retry_trace_def executeWithRetry_def trace0_def)
  have "nat (MaxRetries rc) \<in> set (closed_bodies (retry_trace e (Some rc)))
          \<and> fst (retry_result e (Some rc)) = Some (r\<lparr>Body := Some BodyClosed\<rparr>)"
    if "fst (responses e (nat (MaxRetries rc))) = Some r \<and> Body r = Some b" for r b
    unfolding cb res using that by (simp add: has_body_def close_body_def)
  moreover have "fst (retry_result e (Some rc)) = Some r"
    if "fst (responses e (nat (MaxRetries rc))) = Some r \<and> Body r = None" for r
    unfolding res using that by (simp add: close_body_def)
  moreover have "fst (retry_result e (Some rc)) = None"
    if "fst (responses e (nat (MaxRetries rc))) = None"
    unfolding res using that by (simp add: close_body_def)
  ultimately show ?thesis using cb by blast
qed

theorem exhaustion_body_closed_witness:
  "closed_bodies (retry_trace always_503 (Some DefaultRetryConfig)) = [0, 1, 2, 3]
   \<and> fst (responses always_503 3) = Some \<lparr>StatusCode = 503, Body = Some BodyOpen\<rparr>
   \<and> fst (retry_result always_503 (Some DefaultRetryConfig)) =
       Some \<lparr>StatusCode = 503, Body = Some BodyClosed\<rparr>"
  using exhaustion_body_closed [of DefaultRetryConfig always_503]
  by (simp add: always_503_def DefaultRetryConfig_def shouldRetry_def ctx_Err_def has_body_def
      upt_rec)

section \<open>Concrete runs of the stream session and the supervisor\<close>

lemmas ws_eval = WebSocketStreamWithReconnect_def reconnect_loop.simps reconnect_iteration_def
  after_session_def backoff_wait_def WebSocketStream_def writer_loop.simps ws_log_def
  drain_check_def NewWebSocketError_def next_delay_def second_def Let_def ws_init_def
  run_stream_def run_reconnect_def cancel_def chan_send_def chan_close_def chan_closed_def
  set_reader_def close_conn_def read_enabled_def exit_enabled_def reader_iteration_def
  reader_return_def error_event_def message_event_def

lemma dial_always_fails_run:
  "WebSocketStreamWithReconnect False (Some five_attempts) dial_always_fails ws_init =
   (Returns (Some (WebSocketError ''max reconnection attempts exceeded''
       (Some (WebSocketError ''dial failed'' (Some (NetError ''connection refused'')))))),
    [TimerFired, refused, TimerFired, refused, TimerFired, refused, TimerFired],
    ws_init\<lparr>streams := 5, onReconnect_calls := 4,
            backoffs := [1 * second, 2 * second, 4 * second, 8 * second]\<rparr>)"
  by (simp add: ws_eval float_eval five_attempts_def dial_always_fails_def refused_def)

lemma graceful_shutdown_run:
  "run_stream False graceful_shutdown ws_init =
   (Returns None,
    ws_init\<lparr>streams := 1, conns := [\<lparr>conn_open = False, reader = Exited\<rparr>],
       receiveChan :=
         [(0, ChanSend (message_event ''{\"n\":1}'')),
          (0, ChanSend (error_event (NetError ''use of closed network connection''))),
          (0, ChanClose)]\<rparr>)"
  by (simp add: ws_eval graceful_shutdown_def)

lemma drop_and_reconnect_run:
  "run_reconnect False (Some five_attempts) drop_and_reconnect ws_init =
   (Panics,
    ws_init\<lparr>streams := 2, onReconnect_calls := 1, backoffs := [1 * second],
       conns := [\<lparr>conn_open = False, reader = Exited\<rparr>, \<lparr>conn_open = True, reader = Reading\<rparr>],
       receiveChan := [(0, ChanSend (error_event (NetError ''EOF''))), (0, ChanClose)],
       panic := Some ''send on closed channel''\<rparr>)"
  by (simp add: ws_eval float_eval five_attempts_def drop_and_reconnect_def)

text \<open>
  A cancellation that arrives while the supervisor is in its backoff wait: the
  callback has been called and the delay handed to \<^verbatim>\<open>time.After\<close> when the
  \<^verbatim>\<open>select\<close> takes \<^verbatim>\<open><-ctx.Done()\<close>, and no further session is started.
\<close>

lemma cancelled_in_backoff_run:
  "run_reconnect False (Some five_attempts) cancelled_in_backoff ws_init =
   (Returns (Some Canceled),
    ws_init\<lparr>ctx_error := Some Canceled, streams := 1, onReconnect_calls := 1,
            backoffs := [1 * second]\<rparr>)"
  by (simp add: ws_eval five_attempts_def cancelled_in_backoff_def refused_def)

lemma backoff_wait_cancelled:
  assumes "calm s"
  shows "fst (backoff_wait lg cfg d (Cancel err # CtxDone # rest) s) = Inl (Returns (Some err))
       \<and> fst (snd (backoff_wait lg cfg d (Cancel err # CtxDone # rest) s)) = rest
       \<and> onReconnect_calls (snd (snd (backoff_wait lg cfg d (Cancel err # CtxDone # rest) s))) =
           onReconnect_calls s + (if OnReconnect cfg then 1 else 0)
       \<and> backoffs (snd (snd (backoff_wait lg cfg d (Cancel err # CtxDone # rest) s))) =
           backoffs s @ [d]"
  using assms by (simp add: calm_def backoff_wait_def ws_log_def cancel_def Let_def)

text \<open>
  Once the output channel has been closed, whatever a reader goroutine reads
  next, its send panics.
\<close>

lemma send_after_close_panics:
  "panic (reader_iteration i r (chan_close j s)) = Some ''send on closed channel''"
  by (cases r)
    (simp_all add: reader_iteration_def chan_close_def chan_send_def chan_closed_def Let_def)

text \<open>
  The supervisor on a dial that is refused every time, for any
  \<^verbatim>\<open>MaxReconnectAttempts\<close> from 1 on: the number of sessions is
  \<^verbatim>\<open>MaxReconnectAttempts\<close>, the first session included, and the callback is called
  once less often.
\<close>

lemma drain_always_refused [simp]:
  "drain (always_refused k @ evs) s = (always_refused k @ evs, s)" if "evs = []"
  using that by (cases k) simp_all

lemma drain_check_always_refused [simp]:
  "drain_check (always_refused k) s = (always_refused k, s)"
  using drain_always_refused[of "[]" k s] by (cases k) (simp_all add: drain_check_def)

lemma drain_check_waiting [simp]:
  "drain_check (Dial dr # evs) s = (Dial dr # evs, s)"
  "drain_check (TimerFired # evs) s = (TimerFired # evs, s)"
  by (simp_all add: drain_check_def)

lemma first_turn:
  assumes "calm s"
  shows "\<exists>s'. reconnect_iteration lg cfg 0 d (refused # always_refused k) s =
            ((if MaxReconnectAttempts cfg > 0 \<and> 1 \<ge> MaxReconnectAttempts cfg
              then Inl (Returns (Some (WebSocketError ''max reconnection attempts exceeded'' (Some dial_failed))))
              else Inr (1, d)), always_refused k, s')
          \<and> calm s' \<and> streams s' = streams s + 1 \<and> onReconnect_calls s' = onReconnect_calls s
          \<and> backoffs s' = backoffs s"
  using assms
  by (auto simp: calm_def reconnect_iteration_def refused_def WebSocketStream_def after_session_def
      NewWebSocketError_def dial_failed_def ws_log_def Let_def)

lemma later_turn:
  assumes "calm s" and "0 < a"
  shows "\<exists>s'. reconnect_iteration lg cfg a d (TimerFired # refused # always_refused k) s =
            ((if MaxReconnectAttempts cfg > 0 \<and> int (a + 1) \<ge> MaxReconnectAttempts cfg
              then Inl (Returns (Some (WebSocketError ''max reconnection attempts exceeded'' (Some dial_failed))))
              else Inr (a + 1, next_delay (ws_out_of_range s) (ReconnectMultiplier cfg) (MaxReconnectDelay cfg) d)),
             always_refused k, s')
          \<and> calm s' \<and> streams s' = streams s + 1
          \<and> onReconnect_calls s' = onReconnect_calls s + (if OnReconnect cfg then 1 else 0)
          \<and> backoffs s' = backoffs s @ [d]"
  using assms
  by (auto simp: calm_def reconnect_iteration_def backoff_wait_def refused_def WebSocketStream_def
      after_session_def NewWebSocketError_def dial_failed_def ws_log_def Let_def)

lemma later_turns:
  assumes "calm s" and "0 < a" and "0 < MaxReconnectAttempts cfg"
    and "int a + int (Suc k) = MaxReconnectAttempts cfg"
  shows "\<exists>s'. reconnect_loop lg cfg a d (always_refused (Suc k)) s =
            (Returns (Some (WebSocketError ''max reconnection attempts exceeded'' (Some dial_failed))), [], s')
          \<and> streams s' = streams s + Suc k
          \<and> onReconnect_calls s' = onReconnect_calls s + (if OnReconnect cfg then Suc k else 0)
          \<and> length (backoffs s') = length (backoffs s) + Suc k"
  using assms
proof (induction k arbitrary: a d s)
  case 0
  from later_turn[OF "0.prems"(1,2), of lg cfg d 0] "0.prems"(3,4)
  show ?case
    by (subst reconnect_loop.simps) auto
next
  case (Suc k)
  from later_turn[OF Suc.prems(1,2), of lg cfg d "Suc k"] Suc.prems(3,4)
  obtain s1 where s1: "reconnect_iteration lg cfg a d (always_refused (Suc (Suc k))) s =
      (Inr (a + 1, next_delay (ws_out_of_range s) (ReconnectMultiplier cfg) (MaxReconnectDelay cfg) d),
       always_refused (Suc k), s1)"
    "calm s1" "streams s1 = streams s + 1"
    "onReconnect_calls s1 = onReconnect_calls s + (if OnReconnect cfg then 1 else 0)"
    "backoffs s1 = backoffs s @ [d]"
    by auto
  have "int (a + 1) + int (Suc k) = MaxReconnectAttempts cfg" using Suc.prems(4) by simp
  from Suc.IH[OF s1(2) _ Suc.prems(3) this, of "next_delay (ws_out_of_range s) (ReconnectMultiplier cfg) (MaxReconnectDelay cfg) d"]
  obtain s' where "reconnect_loop lg cfg (a + 1) (next_delay (ws_out_of_range s) (ReconnectMultiplier cfg) (MaxReconnectDelay cfg) d) (always_refused (Suc k)) s1 =
            (Returns (Some (WebSocketError ''max reconnection attempts exceeded'' (Some dial_failed))), [], s')"
          "streams s' = streams s1 + Suc k"
          "onReconnect_calls s' = onReconnect_calls s1 + (if OnReconnect cfg then Suc k else 0)"
          "length (backoffs s') = length (backoffs s1) + Suc k"
    by auto
  then show ?case using s1
    by (subst reconnect_loop.simps) auto
qed

lemma sessions_equal_max_attempts:
  assumes "AutoReconnect cfg" and "MaxReconnectAttempts cfg = int (Suc n)"
  shows "\<exists>s'. WebSocketStreamWithReconnect lg (Some cfg) (refused # always_refused n) ws_init =
            (Returns (Some (WebSocketError ''max reconnection attempts exceeded'' (Some dial_failed))), [], s')
          \<and> streams s' = Suc n
          \<and> onReconnect_calls s' = (if OnReconnect cfg then n else 0)
          \<and> length (backoffs s') = n"
proof (cases n)
  case 0
  have c: "calm ws_init" by (simp add: calm_def ws_init_def)
  from first_turn[OF c, of lg cfg "ReconnectDelay cfg" 0] assms 0
  show ?thesis
    by (subst WebSocketStreamWithReconnect_def, simp, subst reconnect_loop.simps)
      (auto simp: ws_init_def)
next
  case (Suc k)
  have c: "calm ws_init" by (simp add: calm_def ws_init_def)
  from first_turn[OF c, of lg cfg "ReconnectDelay cfg" n] assms Suc
  obtain s1 where s1: "reconnect_iteration lg cfg 0 (ReconnectDelay cfg) (refused # always_refused n) ws_init =
      (Inr (1, ReconnectDelay cfg), always_refused n, s1)"
    "calm s1" "streams s1 = 1" "onReconnect_calls s1 = 0" "backoffs s1 = []"
    by (auto simp: ws_init_def)
  have step: "reconnect_loop lg cfg 0 (ReconnectDelay cfg) (refused # always_refused n) ws_init =
      reconnect_loop lg cfg 1 (ReconnectDelay cfg) (always_refused n) s1"
    by (subst reconnect_loop.simps) (simp add: s1(1))
  have "int 1 + int (Suc k) = MaxReconnectAttempts cfg" using assms(2) Suc by simp
  from later_turns[OF s1(2) _ _ this, of lg "ReconnectDelay cfg"] assms(2)
  obtain s' where "reconnect_loop lg cfg 1 (ReconnectDelay cfg) (always_refused (Suc k)) s1 =
            (Returns (Some (WebSocketError ''max reconnection attempts exceeded'' (Some dial_failed))), [], s')"
          "streams s' = streams s1 + Suc k"
          "onReconnect_calls s' = onReconnect_calls s1 + (if OnReconnect cfg then Suc k else 0)"
          "length (backoffs s') = length (backoffs s1) + Suc k"
    by auto
  then show ?thesis using s1 Suc assms(1) step
    by (simp add: WebSocketStreamWithReconnect_def)
qed

section \<open>Connections and continued scripts\<close>

text \<open>
  The events beside the calling goroutine never open or close a connection.
\<close>

lemma cancel_fields [simp]:
  "conns (cancel err s) = conns s"
  "receiveChan (cancel err s) = receiveChan s"
  "panic (cancel err s) = panic s"
  by (simp_all add: cancel_def)

lemma ws_log_fields [simp]:
  "conns (ws_log lg msg s) = conns s"
  "receiveChan (ws_log lg msg s) = receiveChan s"
  "panic (ws_log lg msg s) = panic s"
  "ctx_error (ws_log lg msg s) = ctx_error s"
  by (simp_all add: ws_log_def)

lemma map_update_same: "(map f xs)[i := f (xs ! i)] = map f xs"
  by (metis list_update_id map_update)

lemma opens_reader_iteration [simp]:
  "map conn_open (conns (reader_iteration i r s)) = map conn_open (conns s)"
  by (auto simp: reader_iteration_def chan_send_def set_reader_def Let_def map_update
      map_update_same split: read_result.splits)

lemma opens_reader_return [simp]:
  "map conn_open (conns (reader_return i s)) = map conn_open (conns s)"
  by (auto simp: reader_return_def chan_close_def set_reader_def Let_def map_update
      map_update_same)

lemma drain_opens:
  "map conn_open (conns (snd (drain evs s))) = map conn_open (conns s)"
  by (induction evs s rule: drain.induct) simp_all

lemma drain_opens': "drain evs s = (evs', s') \<Longrightarrow> map conn_open (conns s') = map conn_open (conns s)"
  using drain_opens[of evs s] by simp

text \<open>
  A script can be continued: what a call does on a script that leaves it waiting
  with nothing more to come is the beginning of what it does on any longer
  script.
\<close>

lemma drain_append:
  "drain evs s = ([], s') \<Longrightarrow> drain (evs @ sfx) s = drain sfx s'"
  by (induction evs s rule: drain.induct) (auto split: if_splits)

lemma drain_append_stop:
  "drain evs s = (ev # rest, s') \<Longrightarrow> drain (evs @ sfx) s = (ev # rest @ sfx, s')"
  by (induction evs s rule: drain.induct) (auto split: if_splits)

lemma writer_loop_append:
  "writer_loop lg evs s = (Stuck, [], s') \<Longrightarrow>
   writer_loop lg (evs @ sfx) s = writer_loop lg sfx s'"
proof (induction lg evs s rule: writer_loop.induct)
  case (1 lg evs s)
  obtain es t where d: "drain evs s = (es, t)" by (cases "drain evs s")
  have np: "panic t = None"
    using "1.prems" d by (subst (asm) writer_loop.simps) (auto split: if_splits)
  show ?case
  proof (cases es)
    case Nil
    then have "s' = t"
      using "1.prems" d np by (subst (asm) writer_loop.simps) simp
    moreover have "drain (evs @ sfx) s = drain sfx t"
      using drain_append d Nil by simp
    ultimately show ?thesis
      by (subst writer_loop.simps, subst (2) writer_loop.simps) simp
  next
    case (Cons ev rest)
    have d': "drain (evs @ sfx) s = (ev # rest @ sfx, t)"
      using drain_append_stop d Cons by simp
    show ?thesis
    proof (cases ev)
      case (Recv msg werr)
      show ?thesis
      proof (cases werr)
        case None
        let ?t = "ws_log lg ''message sent to WebSocket stream'' t"
        have "writer_loop lg rest ?t = (Stuck, [], s')"
          using "1.prems" d np Cons Recv None by (subst (asm) writer_loop.simps) simp
        then have "writer_loop lg (rest @ sfx) ?t = writer_loop lg sfx s'"
          using "1.IH"[OF d[symmetric] _ Cons Recv None] np by simp
        then show ?thesis using d' np Recv None
          by (subst writer_loop.simps) simp
      next
        case (Some err)
        then show ?thesis
          using "1.prems" d np Cons Recv by (subst (asm) writer_loop.simps) simp
      qed
    qed (use "1.prems" d np Cons in
          \<open>subst (asm) writer_loop.simps, simp split: option.splits\<close>)+
  qed
qed

section \<open>The reconnect supervisor\<close>

text \<open>
  C1 fails on the code. The reader goroutine of every session closes the output
  channel when it returns (line 115, the deferred \<^verbatim>\<open>close(receiveChan)\<close>), and
  the supervisor hands that same channel to the next session (line 211). In the
  run below reconnection is enabled. The first session connects; the connection
  drops, its reader publishes the terminal event (\<^verbatim>\<open>Error\<close> and \<^verbatim>\<open>Closed\<close> are set)
  and closes the channel; the
  caller's next message cannot be written and the session returns. The
  supervisor waits, dials again and connects: two sessions have run over the
  one output channel. The reader of the second session reads a message and
  sends it on the channel, which is closed: the program panics. The output
  channel has been closed after the terminal event, it has been written to
  after the terminal event, and it has not outlived the first connection.
\<close>

theorem reconnect_sends_on_closed_channel:
  "fst (run_reconnect False (Some five_attempts) drop_and_reconnect ws_init) = Panics
   \<and> panic (snd (run_reconnect False (Some five_attempts) drop_and_reconnect ws_init)) =
       Some ''send on closed channel''
   \<and> streams (snd (run_reconnect False (Some five_attempts) drop_and_reconnect ws_init)) = 2
   \<and> conns (snd (run_reconnect False (Some five_attempts) drop_and_reconnect ws_init)) =
       [\<lparr>conn_open = False, reader = Exited\<rparr>, \<lparr>conn_open = True, reader = Reading\<rparr>]
   \<and> receiveChan (snd (run_reconnect False (Some five_attempts) drop_and_reconnect ws_init)) =
       [(0, ChanSend (error_event (NetError ''EOF''))), (0, ChanClose)]
   \<and> Error (error_event (NetError ''EOF'')) = Some (NetError ''EOF'')
   \<and> Closed (error_event (NetError ''EOF''))
   \<and> chan_closed (snd (run_reconnect False (Some five_attempts) drop_and_reconnect ws_init))"
  unfolding drop_and_reconnect_run
  by (simp add: ws_init_def error_event_def chan_closed_def)

text \<open>
  C2 fails on the code. With \<^verbatim>\<open>MaxReconnectAttempts = 5\<close> and a dial that always
  fails, the supervisor runs five sessions in all, the first and four
  reconnections, calls \<^verbatim>\<open>OnReconnect\<close> four times, waits four times and returns
  the error that wraps the fifth session's error; the script still offers
  further timers and dials, which the call does not take.
\<close>

theorem five_attempts_four_reconnections:
  "fst (WebSocketStreamWithReconnect False (Some five_attempts) dial_always_fails ws_init) =
     Returns (Some (WebSocketError ''max reconnection attempts exceeded''
       (Some (WebSocketError ''dial failed'' (Some (NetError ''connection refused''))))))
   \<and> fst (snd (WebSocketStreamWithReconnect False (Some five_attempts) dial_always_fails ws_init)) =
       [TimerFired, refused, TimerFired, refused, TimerFired, refused, TimerFired]
   \<and> streams (snd (snd (WebSocketStreamWithReconnect False (Some five_attempts)
        dial_always_fails ws_init))) = 5
   \<and> onReconnect_calls (snd (snd (WebSocketStreamWithReconnect False (Some five_attempts)
        dial_always_fails ws_init))) = 4
   \<and> backoffs (snd (snd (WebSocketStreamWithReconnect False (Some five_attempts)
        dial_always_fails ws_init))) = [1 * second, 2 * second, 4 * second, 8 * second]"
  unfolding dial_always_fails_run by (simp add: ws_init_def)

section \<open>The stream session\<close>

text \<open>
  C8, as stated, asks that a session ended by closing the input channel emits
  no event with \<^verbatim>\<open>Error\<close> set. In the run below the caller closes \<^verbatim>\<open>sendChan\<close>
  after one message; \<^verbatim>\<open>WebSocketStream\<close> returns nil and closes the connection,
  on which the reader's \<^verbatim>\<open>wsjson.Read\<close> then fails, and the reader sends the
  event carrying that error.
\<close>

theorem graceful_shutdown_emits_error_event:
  "fst (run_stream False graceful_shutdown ws_init) = Returns None
   \<and> \<not> no_error_event (snd (run_stream False graceful_shutdown ws_init))"
  unfolding graceful_shutdown_run
  by (simp add: no_error_event_def ws_init_def error_event_def message_event_def)

text \<open>
  C8, amended. Let a session be open and waiting in its writer loop: on the
  script \<open>pre\<close> the call has dialled, is in state \<open>s1\<close> and has nothing more to
  go on. If the next thing is that the input channel is found closed, the call
  returns nil; it leaves the state as it was but for closing its connection, so
  the writer loop publishes nothing on the output channel. From then on the
  only read that the session's reader can complete is a failed one, and if the
  output channel has not been closed the reader then publishes the event with
  that error and with \<^verbatim>\<open>Closed\<close> set.
\<close>

theorem graceful_shutdown_returns_nil:
  assumes "WebSocketStream lg pre s = (Stuck, [], s1)" and "panic s1 = None"
    and "length (conns s1) = Suc (length (conns s))"
  shows "WebSocketStream lg (pre @ RecvClosed # rest) s =
           (Returns None, rest, close_conn (length (conns s)) s1)
       \<and> receiveChan (close_conn (length (conns s)) s1) = receiveChan s1
       \<and> (\<forall>r. read_enabled (length (conns s)) r (close_conn (length (conns s)) s1) \<longrightarrow>
            (\<exists>err. r = ReadError err
               \<and> (\<not> chan_closed s1 \<longrightarrow>
                    receiveChan (reader_iteration (length (conns s)) r
                                  (close_conn (length (conns s)) s1)) =
                    receiveChan s1 @ [(length (conns s), ChanSend (error_event err))])))"
proof -
  let ?c = "length (conns s)"
  let ?s0 = "s\<lparr>streams := streams s + 1\<rparr>"
  obtain es t where d: "drain pre ?s0 = (es, t)" by (cases "drain pre ?s0")
  have "length (map conn_open (conns t)) = length (map conn_open (conns ?s0))"
    using drain_opens'[OF d] by simp
  then have len: "length (conns t) = ?c" by simp
  have np: "panic t = None"
    using assms(1) d by (auto simp: WebSocketStream_def split: if_splits)
  let ?t1 = "ws_log lg ''opening WebSocket stream'' t"
  let ?t2 = "?t1\<lparr>conns := conns ?t1 @ [\<lparr>conn_open = True, reader = Reading\<rparr>]\<rparr>"
  have "\<exists>rest0. es = Dial Connected # rest0 \<and> writer_loop lg rest0 ?t2 = (Stuck, [], s1)"
  proof (cases es)
    case Nil
    then have "s1 = t" using assms(1) d np by (simp add: WebSocketStream_def)
    then show ?thesis using assms(3) len by simp
  next
    case (Cons ev rest0)
    show ?thesis
    proof (cases ev)
      case (Dial dr)
      show ?thesis
      proof (cases dr)
        case Connected
        obtain o2 rest' s3 where wl: "writer_loop lg rest0 ?t2 = (o2, rest', s3)"
          by (cases "writer_loop lg rest0 ?t2")
        then have "o2 = Stuck \<and> rest' = [] \<and> s3 = s1"
          using assms(1) d np Cons Dial Connected
          by (cases o2) (simp_all add: WebSocketStream_def Let_def)
        then show ?thesis using Cons Dial Connected wl by simp
      qed (use assms(1) d np Cons Dial in \<open>simp_all add: WebSocketStream_def\<close>)
    qed (use assms(1) d np Cons in \<open>simp_all add: WebSocketStream_def\<close>)
  qed
  then obtain rest0 where es: "es = Dial Connected # rest0"
    and wl: "writer_loop lg rest0 ?t2 = (Stuck, [], s1)"
    by blast
  have d': "drain (pre @ RecvClosed # rest) ?s0 = (Dial Connected # rest0 @ RecvClosed # rest, t)"
    using drain_append_stop d es by simp
  have "writer_loop lg (rest0 @ RecvClosed # rest) ?t2 = writer_loop lg (RecvClosed # rest) s1"
    using writer_loop_append[OF wl] .
  also have "\<dots> = (Returns None, rest, s1)"
    using assms(2) by (subst writer_loop.simps) simp
  finally have ret: "WebSocketStream lg (pre @ RecvClosed # rest) s =
           (Returns None, rest, close_conn ?c s1)"
    using d' np len by (simp add: WebSocketStream_def Let_def)
  have ch: "receiveChan (close_conn ?c s1) = receiveChan s1"
    by (simp add: close_conn_def)
  have rd: "\<exists>err. r = ReadError err
               \<and> (\<not> chan_closed s1 \<longrightarrow>
                    receiveChan (reader_iteration ?c r (close_conn ?c s1)) =
                    receiveChan s1 @ [(?c, ChanSend (error_event err))])"
    if en: "read_enabled ?c r (close_conn ?c s1)" for r
  proof (cases r)
    case (ReadMessage m)
    then show ?thesis using en assms(3)
      by (simp add: read_enabled_def close_conn_def)
  next
    case (ReadError err)
    have "chan_closed (close_conn ?c s1) = chan_closed s1"
      by (simp add: chan_closed_def close_conn_def)
    then show ?thesis using ReadError assms(2)
      by (simp add: reader_iteration_def chan_send_def Let_def set_reader_def close_conn_def)
  qed
  show ?thesis using ret ch rd by blast
qed

theorem graceful_shutdown_returns_nil_witness:
  "WebSocketStream False
     ([Dial Connected, Recv ''{\"n\":1}'' None, Read 0 (ReadMessage ''{\"n\":1}'')]
      @ RecvClosed # [Read 0 (ReadError (NetError ''use of closed network connection'')), Exit 0])
     ws_init =
   (Returns None,
    [Read 0 (ReadError (NetError ''use of closed network connection'')), Exit 0],
    ws_init\<lparr>streams := 1, conns := [\<lparr>conn_open = False, reader = Reading\<rparr>],
       receiveChan := [(0, ChanSend (message_event ''{\"n\":1}''))]\<rparr>)"
proof -
  let ?s1 = "ws_init\<lparr>streams := 1, conns := [\<lparr>conn_open = True, reader = Reading\<rparr>],
       receiveChan := [(0, ChanSend (message_event ''{\"n\":1}''))]\<rparr>"
  have a: "WebSocketStream False
      [Dial Connected, Recv ''{\"n\":1}'' None, Read 0 (ReadMessage ''{\"n\":1}'')] ws_init =
      (Stuck, [], ?s1)"
    by (simp add: ws_eval)
  have b: "panic ?s1 = None" by (simp add: ws_init_def)
  have c: "length (conns ?s1) = Suc (length (conns ws_init))" by (simp add: ws_init_def)
  show ?thesis
    using graceful_shutdown_returns_nil [OF a b c,
        of "[Read 0 (ReadError (NetError ''use of closed network connection'')), Exit 0]"]
    by (simp add: ws_init_def close_conn_def)
qed

end
